theory Spec2Isabelle
  imports Main "HOL-Library.Sublist"
begin

section \<open>Python primitives used by the travel planner\<close>

text \<open>
  Strings are lists of characters; a \<^typ>\<open>char\<close> stands for a code point below 256.
  The whitespace test is Python's \<^verbatim>\<open>str.isspace\<close> on that range: tab, line feed,
  vertical tab, form feed, carriage return, the four separators 0x1C-0x1F, space, NEL
  (0x85) and the no-break space (0xA0). \<^verbatim>\<open>str.strip()\<close> and \<^verbatim>\<open>str.split()\<close> use
  this set.
\<close>

definition isspace :: "char \<Rightarrow> bool" where
  "isspace c = (c \<in> set [CHR 0x09, CHR 0x0A, CHR 0x0B, CHR 0x0C, CHR 0x0D,
                         CHR 0x1C, CHR 0x1D, CHR 0x1E, CHR 0x1F, CHR 0x20,
                         CHR 0x85, CHR 0xA0])"

definition isdigit :: "char \<Rightarrow> bool" where
  "isdigit c = (c \<in> set ''0123456789'')"

definition digit_val :: "char \<Rightarrow> nat" where
  "digit_val c = of_char c - 48"

text \<open>\<^verbatim>\<open>s.strip()\<close>: leading and trailing whitespace removed.\<close>

definition strip :: "string \<Rightarrow> string" where
  "strip s = rev (dropWhile isspace (rev (dropWhile isspace s)))"

text \<open>
  \<^verbatim>\<open>s.split(sep)\<close> for a one-character separator: the pieces between all occurrences
  of the separator, empty pieces kept; the result always has at least one element.
\<close>

function split_sep :: "char \<Rightarrow> string \<Rightarrow> string list" where
  "split_sep sep s =
     takeWhile (\<lambda>c. c \<noteq> sep) s #
       (case dropWhile (\<lambda>c. c \<noteq> sep) s of
          [] \<Rightarrow> []
        | _ # rest \<Rightarrow> split_sep sep rest)"
  by pat_completeness auto
termination
proof (relation "measure (\<lambda>(sep, s). length s)")
  show "wf (measure (\<lambda>(sep, s). length s))" by simp
next
  fix sep :: char and s x21 rest
  assume "dropWhile (\<lambda>c. c \<noteq> sep) s = x21 # rest"
  then have "length (x21 # rest) \<le> length s"
    using length_dropWhile_le [of "\<lambda>c. c \<noteq> sep" s] by simp
  then show "((sep, rest), (sep, s)) \<in> measure (\<lambda>(sep, s). length s)" by simp
qed

declare split_sep.simps [simp del]

text \<open>
  \<^verbatim>\<open>s.split()\<close> without an argument: the maximal runs of non-whitespace characters,
  in order; no empty piece is produced.
\<close>

function split_ws :: "string \<Rightarrow> string list" where
  "split_ws s =
     (case dropWhile isspace s of
        [] \<Rightarrow> []
      | c # cs \<Rightarrow>
          (c # takeWhile (\<lambda>x. \<not> isspace x) cs) #
            split_ws (dropWhile (\<lambda>x. \<not> isspace x) cs))"
  by pat_completeness auto
termination
proof (relation "measure length")
  show "wf (measure length)" by simp
next
  fix s :: string and c cs
  assume a: "dropWhile isspace s = c # cs"
  have "length (dropWhile (\<lambda>x. \<not> isspace x) cs) \<le> length cs"
    by (rule length_dropWhile_le)
  moreover have "length (c # cs) \<le> length s"
    using length_dropWhile_le [of isspace s] a by simp
  ultimately show "(dropWhile (\<lambda>x. \<not> isspace x) cs, s) \<in> measure length" by simp
qed

declare split_ws.simps [simp del]

text \<open>The exceptions of the program. Everything that is neither an \<^verbatim>\<open>IndexError\<close>, a
  \<^verbatim>\<open>ValueError\<close>, a \<^verbatim>\<open>KeyError\<close> nor Streamlit's stop signal is an
  \<open>OtherException\<close>, named by its class.\<close>

datatype exn = IndexError | ValueError | KeyError | StopException | OtherException string

text \<open>
  \<^verbatim>\<open>int(s)\<close> on a string, base ten: surrounding whitespace is ignored, one sign is
  allowed, then digits, where single underscores may stand between two digits. Anything
  else raises \<^verbatim>\<open>ValueError\<close>. So does a literal with more digits than the interpreter's
  limit \<^verbatim>\<open>sys.int_max_str_digits\<close>, 4300 by default (the program does not change it);
  every digit counts, leading zeros too, underscores do not. The whitespace \<^verbatim>\<open>int\<close>
  ignores is narrower than that of \<^verbatim>\<open>str.strip\<close>: the separators 0x1C-0x1F are not part
  of it.
\<close>

definition int_isspace :: "char \<Rightarrow> bool" where
  "int_isspace c = (c \<in> set [CHR 0x09, CHR 0x0A, CHR 0x0B, CHR 0x0C, CHR 0x0D, CHR 0x20,
                             CHR 0x85, CHR 0xA0])"

definition int_strip :: "string \<Rightarrow> string" where
  "int_strip s = rev (dropWhile int_isspace (rev (dropWhile int_isspace s)))"

definition int_max_str_digits :: nat where
  "int_max_str_digits = 4300"

fun int_digits :: "nat \<Rightarrow> string \<Rightarrow> nat option" where
  "int_digits acc [] = Some acc"
| "int_digits acc [c] = (if isdigit c then Some (10 * acc + digit_val c) else None)"
| "int_digits acc (c # d # ds) =
     (if isdigit c then int_digits (10 * acc + digit_val c) (d # ds)
      else if c = CHR ''_'' \<and> isdigit d then int_digits (10 * acc + digit_val d) ds
      else None)"

definition int_unsigned :: "string \<Rightarrow> nat option" where
  "int_unsigned s =
     (case s of
        [] \<Rightarrow> None
      | d # ds \<Rightarrow>
          if isdigit d \<and> length (filter isdigit s) \<le> int_max_str_digits
          then int_digits (digit_val d) ds
          else None)"

definition py_int :: "string \<Rightarrow> exn + int" where
  "py_int s =
     (case int_strip s of
        [] \<Rightarrow> Inl ValueError
      | c # cs \<Rightarrow>
          if c = CHR ''-'' then
            (case int_unsigned cs of None \<Rightarrow> Inl ValueError | Some n \<Rightarrow> Inr (- int n))
          else if c = CHR ''+'' then
            (case int_unsigned cs of None \<Rightarrow> Inl ValueError | Some n \<Rightarrow> Inr (int n))
          else
            (case int_unsigned (c # cs) of None \<Rightarrow> Inl ValueError | Some n \<Rightarrow> Inr (int n)))"

text \<open>\<^verbatim>\<open>str(n)\<close> of an integer, as an f-string renders it: decimal digits, a minus
  sign in front of a negative number.\<close>

definition digit_char :: "nat \<Rightarrow> char" where
  "digit_char d = ''0123456789'' ! d"

function str_nat :: "nat \<Rightarrow> string" where
  "str_nat n = (if n < 10 then [digit_char n] else str_nat (n div 10) @ [digit_char (n mod 10)])"
  by pat_completeness auto
termination
  by (relation "measure (\<lambda>n. n)") auto

declare str_nat.simps [simp del]

definition str_int :: "int \<Rightarrow> string" where
  "str_int i = (if i < 0 then CHR ''-'' # str_nat (nat (- i)) else str_nat (nat i))"

text \<open>
  Converting an integer to text, in an f-string or in \<^verbatim>\<open>str.format\<close>, is subject to the
  same limit as \<^verbatim>\<open>int\<close>: an integer of more than 4300 digits raises \<^verbatim>\<open>ValueError\<close>.
\<close>

definition py_str_int :: "int \<Rightarrow> exn + string" where
  "py_str_int i =
     (if int_max_str_digits < length (str_nat (nat \<bar>i\<bar>)) then Inl ValueError
      else Inr (str_int i))"

text \<open>\<^verbatim>\<open>sep.join(xs)\<close>.\<close>

fun join :: "string \<Rightarrow> string list \<Rightarrow> string" where
  "join sep [] = []"
| "join sep [x] = x"
| "join sep (x # y # ys) = x @ sep @ join sep (y # ys)"

text \<open>\<^verbatim>\<open>d.get(key, default)\<close> on a dictionary.\<close>

definition dict_get :: "('k \<rightharpoonup> 'v) \<Rightarrow> 'k \<Rightarrow> 'v \<Rightarrow> 'v" where
  "dict_get d k dflt = (case d k of None \<Rightarrow> dflt | Some v \<Rightarrow> v)"

section \<open>The input parser\<close>

text \<open>
  Both front ends parse the combined field with the same three statements
  (\<^verbatim>\<open>travel_planner.py\<close> lines 75-77, \<^verbatim>\<open>app.py\<close> lines 88-90):
  \<^verbatim>\<open>
  dest_parts = destination.split(',')
  place = dest_parts[0].strip()
  num_days = int(dest_parts[1].strip().split()[0])
  \<close>
  \<^verbatim>\<open>dest_parts[1]\<close> raises \<^verbatim>\<open>IndexError\<close> when there is no comma, \<^verbatim>\<open>split()[0]\<close>
  raises it when nothing but whitespace follows the comma, and \<^verbatim>\<open>int\<close> raises
  \<^verbatim>\<open>ValueError\<close>.
\<close>

definition parse_destination :: "string \<Rightarrow> exn + (string \<times> int)" where
  "parse_destination destination =
     (case split_sep (CHR '','') destination of
        [] \<Rightarrow> Inl IndexError
      | p0 # ps \<Rightarrow>
          let place = strip p0 in
          (case ps of
             [] \<Rightarrow> Inl IndexError
           | p1 # _ \<Rightarrow>
               (case split_ws (strip p1) of
                  [] \<Rightarrow> Inl IndexError
                | tok # _ \<Rightarrow>
                    (case py_int tok of
                       Inl e \<Rightarrow> Inl e
                     | Inr num_days \<Rightarrow> Inr (place, num_days)))))"

section \<open>Search results and the search client\<close>

text \<open>
  A search response is the dictionary the provider's JSON decodes to. The program reads
  two keys of it: \<^verbatim>\<open>"organic"\<close>, a list of entries, and \<^verbatim>\<open>"error"\<close>; either may be
  absent. An entry is a dictionary from which the keys \<^verbatim>\<open>"title"\<close>, \<^verbatim>\<open>"link"\<close> and
  \<^verbatim>\<open>"snippet"\<close> are read, each a string when present.
\<close>

type_synonym entry = "string \<rightharpoonup> string"

record search_results =
  organic :: "entry list option"
  error :: "string option"

text \<open>
  What \<^verbatim>\<open>requests.post\<close> hands back: the status code, the body as text and the body
  decoded by \<^verbatim>\<open>resp.json()\<close>, which raises a subclass of \<^verbatim>\<open>ValueError\<close> when the
  body is not JSON (\<open>None\<close> here).
\<close>

record http_response =
  status_code :: int
  resp_text :: string
  resp_json :: "search_results option"

text \<open>
  What a run does to the outside world, in order: lines printed and prompts shown on the
  console, Streamlit widgets rendered, and the two network calls (the POST to the search
  provider with its query, the generation request with its prompt).
\<close>

datatype event =
    Print string
  | Input string
  | StSpinner string
  | StError string
  | StWarning string
  | StMarkdown string
  | StHeader string
  | HttpPost string string
  | LlmInvoke string

text \<open>The network is a parameter: what the search provider answers to a query and what
  the model answers to a prompt, or the exception the call raises.\<close>

type_synonym search_api = "string \<Rightarrow> exn + http_response"
type_synonym llm_api = "string \<Rightarrow> exn + string"

definition serper_url :: string where
  "serper_url = ''https://google.serper.dev/search''"

text \<open>\<^verbatim>\<open>serper_search\<close> of \<^verbatim>\<open>travel_planner.py\<close> (lines 23-30).\<close>

definition serper_search :: "search_api \<Rightarrow> string \<Rightarrow> event list \<times> (exn + search_results)" where
  "serper_search post query =
     ([HttpPost serper_url query],
      (case post query of
         Inl e \<Rightarrow> Inl e
       | Inr resp \<Rightarrow>
           if status_code resp \<noteq> 200 then
             Inr \<lparr>organic = None, error = Some (resp_text resp)\<rparr>
           else
             (case resp_json resp of
                None \<Rightarrow> Inl ValueError
              | Some body \<Rightarrow> Inr body)))"

text \<open>
  \<^verbatim>\<open>serper_search\<close> of \<^verbatim>\<open>app.py\<close> (lines 27-35) has the same body under the decorator
  \<^verbatim>\<open>@st.cache_data\<close>: the results of earlier calls are kept by query; a call with a
  stored query returns the stored result and does not run the body; a call that returns
  stores its result, a call that raises stores nothing.
\<close>

type_synonym search_cache = "string \<rightharpoonup> search_results"

definition app_serper_search ::
  "search_cache \<Rightarrow> search_api \<Rightarrow> string \<Rightarrow> (event list \<times> (exn + search_results)) \<times> search_cache" where
  "app_serper_search cache post query =
     (case cache query of
        Some stored \<Rightarrow> (([], Inr stored), cache)
      | None \<Rightarrow>
          (let url = ''https://google.serper.dev/search'' in
           case post query of
             Inl e \<Rightarrow> (([HttpPost url query], Inl e), cache)
           | Inr resp \<Rightarrow>
               if status_code resp \<noteq> 200 then
                 (([HttpPost url query], Inr \<lparr>organic = None, error = Some (resp_text resp)\<rparr>),
                  cache(query \<mapsto> \<lparr>organic = None, error = Some (resp_text resp)\<rparr>))
               else
                 (case resp_json resp of
                    None \<Rightarrow> (([HttpPost url query], Inl ValueError), cache)
                  | Some body \<Rightarrow> (([HttpPost url query], Inr body), cache(query \<mapsto> body)))))"

section \<open>The result summarizer\<close>

text \<open>
  \<^verbatim>\<open>summarize_search_results\<close> (\<^verbatim>\<open>travel_planner.py\<close> lines 33-42): the loop over
  \<^verbatim>\<open>snippets[:5]\<close> appends one formatted string per entry to \<^verbatim>\<open>summary_lines\<close>, and
  the lines are joined with a newline.
\<close>

fun summary_loop :: "entry list \<Rightarrow> string list \<Rightarrow> string list" where
  "summary_loop [] summary_lines = summary_lines"
| "summary_loop (snippet # rest) summary_lines =
     (let title = dict_get snippet ''title'' ''N/A'';
          link = dict_get snippet ''link'' ''N/A'';
          snippet_text = dict_get snippet ''snippet'' ''N/A''
      in summary_loop rest
           (summary_lines @
             [''Title: '' @ title @ ''\<newline>URL: '' @ link @ ''\<newline>Summary: '' @ snippet_text @
              ''\<newline>---'']))"

definition summarize_search_results :: "search_results \<Rightarrow> string" where
  "summarize_search_results sr =
     (let snippets = (case organic sr of None \<Rightarrow> [] | Some xs \<Rightarrow> xs)
      in join ''\<newline>'' (summary_loop (take 5 snippets) []))"

text \<open>The function of the same name in \<^verbatim>\<open>app.py\<close> (lines 38-47).\<close>

fun app_summary_loop :: "entry list \<Rightarrow> string list \<Rightarrow> string list" where
  "app_summary_loop [] summary_lines = summary_lines"
| "app_summary_loop (snippet # rest) summary_lines =
     (let title = dict_get snippet ''title'' ''N/A'';
          link = dict_get snippet ''link'' ''N/A'';
          snippet_text = dict_get snippet ''snippet'' ''N/A''
      in app_summary_loop rest
           (summary_lines @
             [''Title: '' @ title @ ''\<newline>URL: '' @ link @ ''\<newline>Summary: '' @ snippet_text @
              ''\<newline>---'']))"

definition app_summarize_search_results :: "search_results \<Rightarrow> string" where
  "app_summarize_search_results sr =
     (let snippets = (case organic sr of None \<Rightarrow> [] | Some xs \<Rightarrow> xs)
      in join ''\<newline>'' (app_summary_loop (take 5 snippets) []))"

section \<open>The prompt template and the itinerary generator\<close>

text \<open>
  The template is formatted as Python's \<^verbatim>\<open>str.format\<close> does it: the text is scanned
  once; \<^verbatim>\<open>{{\<close> and \<^verbatim>\<open>}}\<close> stand for one brace; \<^verbatim>\<open>{name}\<close> is a field, replaced by the
  keyword argument of that name; a brace that is neither is a \<^verbatim>\<open>ValueError\<close>, a field
  without an argument a \<^verbatim>\<open>KeyError\<close>. The substituted values are not scanned again.
  (Conversions and format specifiers inside a field, which this template does not use,
  are not modelled.)
\<close>

datatype piece = Lit char | Field string

function parse_template :: "string \<Rightarrow> piece list option" where
  "parse_template [] = Some []"
| "parse_template (c # cs) =
     (if c = CHR ''{'' then
        (case cs of
           [] \<Rightarrow> None
         | d # ds \<Rightarrow>
             if d = CHR ''{'' then
               (case parse_template ds of None \<Rightarrow> None | Some ps \<Rightarrow> Some (Lit (CHR ''{'') # ps))
             else
               (case dropWhile (\<lambda>x. x \<noteq> CHR ''}'') cs of
                  [] \<Rightarrow> None
                | _ # rest \<Rightarrow>
                    (case parse_template rest of
                       None \<Rightarrow> None
                     | Some ps \<Rightarrow> Some (Field (takeWhile (\<lambda>x. x \<noteq> CHR ''}'') cs) # ps))))
      else if c = CHR ''}'' then
        (case cs of
           [] \<Rightarrow> None
         | d # ds \<Rightarrow>
             if d = CHR ''}'' then
               (case parse_template ds of None \<Rightarrow> None | Some ps \<Rightarrow> Some (Lit (CHR ''}'') # ps))
             else None)
      else
        (case parse_template cs of None \<Rightarrow> None | Some ps \<Rightarrow> Some (Lit c # ps)))"
  by pat_completeness auto
termination
proof (relation "measure length", goal_cases)
  case 1
  show ?case by simp
next
  case (2 c cs d ds)
  then show ?case by simp
next
  case (3 c cs d ds x rest)
  then have "length (x # rest) \<le> length cs"
    using length_dropWhile_le [of "\<lambda>x. x \<noteq> CHR ''}''" cs] by simp
  then show ?case by simp
next
  case (4 c cs d ds)
  then show ?case by simp
next
  case (5 c cs)
  then show ?case by simp
qed

fun render :: "piece list \<Rightarrow> (string \<rightharpoonup> string) \<Rightarrow> exn + string" where
  "render [] kwargs = Inr []"
| "render (Lit c # ps) kwargs =
     (case render ps kwargs of Inl e \<Rightarrow> Inl e | Inr s \<Rightarrow> Inr (c # s))"
| "render (Field name # ps) kwargs =
     (case kwargs name of
        None \<Rightarrow> Inl KeyError
      | Some v \<Rightarrow> (case render ps kwargs of Inl e \<Rightarrow> Inl e | Inr s \<Rightarrow> Inr (v @ s)))"

text \<open>
  \<^verbatim>\<open>ChatPromptTemplate.from_template(t).format(**kwargs)\<close>: the template becomes one
  human message; \<^verbatim>\<open>format\<close> fills it in and returns the chat rendered as text, which
  puts the role label \<^verbatim>\<open>Human: \<close> in front of the message.
\<close>

definition chat_format :: "string \<Rightarrow> (string \<rightharpoonup> string) \<Rightarrow> exn + string" where
  "chat_format t kwargs =
     (case parse_template t of
        None \<Rightarrow> Inl ValueError
      | Some ps \<Rightarrow>
          (case render ps kwargs of
             Inl e \<Rightarrow> Inl e
           | Inr s \<Rightarrow> Inr (''Human: '' @ s)))"

definition prompt_template :: string where
  "prompt_template =
     ''You are an expert travel agent. Create a detailed day-by-day travel itinerary '' @
     ''for a {duration}-day trip to {destination}. '' @
     ''The user has these preferences: {preferences}\<newline>\<newline>'' @
     ''Here is some information I found from my research:\<newline>'' @
     ''{search_summary}\<newline>\<newline>'' @
     ''Please use this information to create the itinerary. For each day, suggest '' @
     ''2-3 activities, a food recommendation, and some practical travel tips. '' @
     ''Keep the tone friendly and helpful. Do not mention that you used a search engine.''"

text \<open>The prompt \<^verbatim>\<open>build_itinerary\<close> sends (the value of \<^verbatim>\<open>formatted_prompt\<close>). The
  day count is an integer, which the formatter converts to text.\<close>

definition formatted_prompt :: "string \<Rightarrow> int \<Rightarrow> string \<Rightarrow> string \<Rightarrow> exn + string" where
  "formatted_prompt destination duration preferences search_summary =
     (case py_str_int duration of
        Inl e \<Rightarrow> Inl e
      | Inr duration_text \<Rightarrow>
          chat_format prompt_template
            [''destination'' \<mapsto> destination,
             ''duration'' \<mapsto> duration_text,
             ''preferences'' \<mapsto> preferences,
             ''search_summary'' \<mapsto> search_summary])"

text \<open>\<^verbatim>\<open>build_itinerary\<close> of \<^verbatim>\<open>travel_planner.py\<close> (lines 45-66): one generation request
  with the formatted prompt; the content of the answer is returned as it is.\<close>

definition build_itinerary ::
  "llm_api \<Rightarrow> string \<Rightarrow> int \<Rightarrow> string \<Rightarrow> string \<Rightarrow> event list \<times> (exn + string)" where
  "build_itinerary llm destination duration preferences search_summary =
     (case formatted_prompt destination duration preferences search_summary of
        Inl e \<Rightarrow> ([], Inl e)
      | Inr p \<Rightarrow> ([LlmInvoke p], llm p))"

text \<open>The function of the same name in \<^verbatim>\<open>app.py\<close> (lines 50-71), with its own copy of
  the template.\<close>

definition app_prompt_template :: string where
  "app_prompt_template =
     ''You are an expert travel agent. Create a detailed day-by-day travel itinerary '' @
     ''for a {duration}-day trip to {destination}. '' @
     ''The user has these preferences: {preferences}\<newline>\<newline>'' @
     ''Here is some information I found from my research:\<newline>'' @
     ''{search_summary}\<newline>\<newline>'' @
     ''Please use this information to create the itinerary. For each day, suggest '' @
     ''2-3 activities, a food recommendation, and some practical travel tips. '' @
     ''Keep the tone friendly and helpful. Do not mention that you used a search engine.''"

definition app_formatted_prompt :: "string \<Rightarrow> int \<Rightarrow> string \<Rightarrow> string \<Rightarrow> exn + string" where
  "app_formatted_prompt destination duration preferences search_summary =
     (case py_str_int duration of
        Inl e \<Rightarrow> Inl e
      | Inr duration_text \<Rightarrow>
          chat_format app_prompt_template
            [''destination'' \<mapsto> destination,
             ''duration'' \<mapsto> duration_text,
             ''preferences'' \<mapsto> preferences,
             ''search_summary'' \<mapsto> search_summary])"

definition app_build_itinerary ::
  "llm_api \<Rightarrow> string \<Rightarrow> int \<Rightarrow> string \<Rightarrow> string \<Rightarrow> event list \<times> (exn + string)" where
  "app_build_itinerary llm destination duration preferences search_summary =
     (case app_formatted_prompt destination duration preferences search_summary of
        Inl e \<Rightarrow> ([], Inl e)
      | Inr p \<Rightarrow> ([LlmInvoke p], llm p))"

section \<open>The console front end\<close>

text \<open>\<^verbatim>\<open>except (IndexError, ValueError)\<close>: the exceptions the two front ends handle.\<close>

definition handled :: "exn \<Rightarrow> bool" where
  "handled e = (e = IndexError \<or> e = ValueError)"

definition invalid_format_message :: string where
  "invalid_format_message =
     ''Invalid input format. Please follow the example: '' @ [CHR 0x27] @ ''Chennai, 3 days'' @
     [CHR 0x27] @ ''.''"

definition no_information_message :: string where
  "no_information_message = ''Could not find relevant information. Please try a different query.''"

text \<open>
  The body of the \<^verbatim>\<open>try\<close> block of \<^verbatim>\<open>main\<close> (\<^verbatim>\<open>travel_planner.py\<close> lines 74-106):
  the events it produces and the exception it ends with, if any. \<^verbatim>\<open>get_llm()\<close> builds
  the client object and calls nothing. The f-strings convert \<^verbatim>\<open>num_days\<close> to text; the
  first of them raises when the number is beyond the conversion limit, and the later
  ones produce the same text again.
\<close>

definition main_try :: "search_api \<Rightarrow> llm_api \<Rightarrow> string \<Rightarrow> string \<Rightarrow> event list \<times> exn option" where
  "main_try post llm destination preferences =
     (case parse_destination destination of
        Inl e \<Rightarrow> ([], Some e)
      | Inr (place, num_days) \<Rightarrow>
          (case py_str_int num_days of
             Inl e \<Rightarrow> ([], Some e)
           | Inr days_text \<Rightarrow>
               let planning =
                     [Print (''\<newline>Planning a '' @ days_text @ ''-day trip to '' @ place @ ''...'')];
                   query =
                     ''best things to do in '' @ place @ '' for '' @ days_text @ '' days '' @
                     preferences @ '' travel guide'';
                   searching =
                     [Print (''Searching the web for '' @ [CHR 0x27] @ query @ [CHR 0x27] @ ''...'')]
               in
               (case serper_search post query of
                  (ev1, Inl e) \<Rightarrow> (planning @ searching @ ev1, Some e)
                | (ev1, Inr search_results) \<Rightarrow>
                    (case error search_results of
                       Some err \<Rightarrow>
                         (planning @ searching @ ev1 @ [Print (''Error during search: '' @ err)],
                          None)
                     | None \<Rightarrow>
                         let search_summary = summarize_search_results search_results in
                         if search_summary = [] then
                           (planning @ searching @ ev1 @ [Print no_information_message], None)
                         else
                           (case build_itinerary llm place num_days preferences search_summary of
                              (ev2, Inl e) \<Rightarrow>
                                (planning @ searching @ ev1 @
                                   [Print ''Generating your custom itinerary...''] @ ev2,
                                 Some e)
                            | (ev2, Inr itinerary) \<Rightarrow>
                                (planning @ searching @ ev1 @
                                   [Print ''Generating your custom itinerary...''] @ ev2 @
                                   [Print (''\<newline>'' @ replicate 50 (CHR ''='')),
                                    Print (''Here is your '' @ days_text @ ''-day itinerary for '' @
                                           place @ '':''),
                                    Print (replicate 50 (CHR ''='')),
                                    Print itinerary],
                                 None))))))"

text \<open>
  \<^verbatim>\<open>main\<close>: the welcome line, the two questions (answered by \<open>destination\<close> and
  \<open>preferences\<close>), the \<^verbatim>\<open>try\<close> block, and the handler of the \<^verbatim>\<open>except\<close> clause. The
  second component is the exception that leaves \<^verbatim>\<open>main\<close>, if any.
\<close>

definition main :: "search_api \<Rightarrow> llm_api \<Rightarrow> string \<Rightarrow> string \<Rightarrow> event list \<times> exn option" where
  "main post llm destination preferences =
     (let intro =
            [Print ''Welcome to your AI Travel Itinerary Creator!'',
             Input (''Where do you want to go? Please enter the city and number of days '' @
                    ''(e.g., Chennai, 3 days): ''),
             Input ''Any specific preferences? (e.g., history, budget, food): '']
      in
      case main_try post llm destination preferences of
        (evs, None) \<Rightarrow> (intro @ evs, None)
      | (evs, Some e) \<Rightarrow>
          if handled e then (intro @ evs @ [Print invalid_format_message], None)
          else (intro @ evs, Some e))"

section \<open>The web front end\<close>

text \<open>
  The form submission handler of \<^verbatim>\<open>app.py\<close> (lines 86-118). \<^verbatim>\<open>st.stop()\<close> ends the
  script run by raising Streamlit's stop signal, which the \<^verbatim>\<open>except\<close> clause does not
  handle. The search cache lives as long as the process, so the handler takes it and
  returns it.
\<close>

definition app_try ::
  "search_cache \<Rightarrow> search_api \<Rightarrow> llm_api \<Rightarrow> string \<Rightarrow> string \<Rightarrow>
     (event list \<times> exn option) \<times> search_cache" where
  "app_try cache post llm destination_days preferences =
     (case parse_destination destination_days of
        Inl e \<Rightarrow> (([], Some e), cache)
      | Inr (place, num_days) \<Rightarrow>
          (case py_str_int num_days of
             Inl e \<Rightarrow> (([], Some e), cache)
           | Inr days_text \<Rightarrow>
               let spinner =
                     [StSpinner (''Planning a '' @ days_text @ ''-day trip to '' @ place @ ''...'')];
                   query =
                     ''best things to do in '' @ place @ '' for '' @ days_text @ '' days '' @
                     preferences @ '' travel guide''
               in
               (case app_serper_search cache post query of
                  ((ev1, Inl e), cache') \<Rightarrow> ((spinner @ ev1, Some e), cache')
                | ((ev1, Inr search_results), cache') \<Rightarrow>
                    (case error search_results of
                       Some err \<Rightarrow>
                         ((spinner @ ev1 @ [StError (''Error during search: '' @ err)],
                           Some StopException), cache')
                     | None \<Rightarrow>
                         let search_summary = app_summarize_search_results search_results in
                         if search_summary = [] then
                           ((spinner @ ev1 @
                               [StWarning
                                  ''Could not find relevant information. Please try a different query.''],
                             Some StopException), cache')
                         else
                           (case app_build_itinerary llm place num_days preferences search_summary of
                              (ev2, Inl e) \<Rightarrow> ((spinner @ ev1 @ ev2, Some e), cache')
                            | (ev2, Inr itinerary) \<Rightarrow>
                                ((spinner @ ev1 @ ev2 @
                                    [StMarkdown ''---'',
                                     StHeader (''Your '' @ days_text @ ''-Day Itinerary for '' @
                                               place @ '':''),
                                     StMarkdown itinerary],
                                  None), cache'))))))"

definition app_handler ::
  "search_cache \<Rightarrow> search_api \<Rightarrow> llm_api \<Rightarrow> bool \<Rightarrow> string \<Rightarrow> string \<Rightarrow>
     (event list \<times> exn option) \<times> search_cache" where
  "app_handler cache post llm submit_button destination_days preferences =
     (if submit_button \<and> destination_days \<noteq> [] then
        (case app_try cache post llm destination_days preferences of
           ((evs, None), cache') \<Rightarrow> ((evs, None), cache')
         | ((evs, Some e), cache') \<Rightarrow>
             if handled e then
               ((evs @ [StError (''Invalid input format. Please follow the example: '' @
                                 [CHR 0x27] @ ''Chennai, 3 days'' @ [CHR 0x27] @ ''.'')],
                 None), cache')
             else ((evs, Some e), cache'))
      else (([], None), cache))"

section \<open>Notions the properties are stated with\<close>

text \<open>The number a string of decimal digits denotes.\<close>

definition decimal_value :: "string \<Rightarrow> nat" where
  "decimal_value ds = foldl (\<lambda>acc c. 10 * acc + digit_val c) 0 ds"

text \<open>
  The text after the first comma of an input, the part of it that ends before the next
  comma (or at the end of the input), and the first whitespace-separated token of a
  text.
\<close>

definition after_first_comma :: "string \<Rightarrow> string" where
  "after_first_comma s = drop 1 (dropWhile (\<lambda>c. c \<noteq> CHR '','') s)"

definition day_field :: "string \<Rightarrow> string" where
  "day_field s = takeWhile (\<lambda>c. c \<noteq> CHR '','') (after_first_comma s)"

definition first_token :: "string \<Rightarrow> string option" where
  "first_token x = (case split_ws x of [] \<Rightarrow> None | t # _ \<Rightarrow> Some t)"

text \<open>The block the summary holds for one entry: three labelled lines and the delimiter
  line, \<^verbatim>\<open>N/A\<close> standing for a field the entry does not have.\<close>

definition field_or_na :: "entry \<Rightarrow> string \<Rightarrow> string" where
  "field_or_na e k = (case e k of None \<Rightarrow> ''N/A'' | Some v \<Rightarrow> v)"

definition summary_block :: "entry \<Rightarrow> string" where
  "summary_block e =
     ''Title: '' @ field_or_na e ''title'' @ ''\<newline>'' @
     ''URL: '' @ field_or_na e ''link'' @ ''\<newline>'' @
     ''Summary: '' @ field_or_na e ''snippet'' @ ''\<newline>'' @
     ''---''"


text \<open>
  Reading a trace: the prompts of the generation requests in it, the queries of the
  search requests in it, and what follows the first search request or the first
  generation request.
\<close>

fun llm_calls :: "event list \<Rightarrow> string list" where
  "llm_calls [] = []"
| "llm_calls (LlmInvoke p # es) = p # llm_calls es"
| "llm_calls (_ # es) = llm_calls es"

fun search_calls :: "event list \<Rightarrow> string list" where
  "search_calls [] = []"
| "search_calls (HttpPost url q # es) = q # search_calls es"
| "search_calls (_ # es) = search_calls es"

fun is_search_call :: "event \<Rightarrow> bool" where
  "is_search_call (HttpPost url q) = True"
| "is_search_call _ = False"

fun is_llm_call :: "event \<Rightarrow> bool" where
  "is_llm_call (LlmInvoke p) = True"
| "is_llm_call _ = False"

definition after_search :: "event list \<Rightarrow> event list" where
  "after_search tr = drop 1 (dropWhile (\<lambda>e. \<not> is_search_call e) tr)"

definition after_generation :: "event list \<Rightarrow> event list" where
  "after_generation tr = drop 1 (dropWhile (\<lambda>e. \<not> is_llm_call e) tr)"

text \<open>An input without a day count: it has no comma, or the text between its first comma
  and the next one (or the end) has no first token, or that token is no integer literal.\<close>

definition no_day_count :: "string \<Rightarrow> bool" where
  "no_day_count s =
     (CHR '','' \<notin> set s \<or>
      (case first_token (day_field s) of None \<Rightarrow> True | Some t \<Rightarrow> py_int t = Inl ValueError))"

text \<open>The text of the prompt for given values: the fixed text of the template with the
  four values in the places of the four placeholders, after the role label.\<close>

definition prompt_text :: "string \<Rightarrow> int \<Rightarrow> string \<Rightarrow> string \<Rightarrow> string" where
  "prompt_text destination duration preferences search_summary =
     ''Human: '' @
     ''You are an expert travel agent. Create a detailed day-by-day travel itinerary for a '' @
     str_int duration @ ''-day trip to '' @ destination @ ''. The user has these preferences: '' @
     preferences @
     ''\<newline>\<newline>Here is some information I found from my research:\<newline>'' @
     search_summary @
     ''\<newline>\<newline>Please use this information to create the itinerary. For each day, suggest '' @
     ''2-3 activities, a food recommendation, and some practical travel tips. '' @
     ''Keep the tone friendly and helpful. Do not mention that you used a search engine.''"

text \<open>The search query for a place, a day count and the preferences.\<close>

definition search_query :: "string \<Rightarrow> int \<Rightarrow> string \<Rightarrow> string" where
  "search_query place num_days preferences =
     ''best things to do in '' @ place @ '' for '' @ str_int num_days @ '' days '' @ preferences @
     '' travel guide''"

text \<open>The parts of the two front ends' output that do not depend on how a run ends.\<close>

definition console_intro :: "event list" where
  "console_intro =
     [Print ''Welcome to your AI Travel Itinerary Creator!'',
      Input (''Where do you want to go? Please enter the city and number of days '' @
             ''(e.g., Chennai, 3 days): ''),
      Input ''Any specific preferences? (e.g., history, budget, food): '']"

definition console_prelude :: "string \<Rightarrow> int \<Rightarrow> string \<Rightarrow> event list" where
  "console_prelude place num_days preferences =
     [Print (''\<newline>Planning a '' @ str_int num_days @ ''-day trip to '' @ place @ ''...''),
      Print (''Searching the web for '' @ [CHR 0x27] @ search_query place num_days preferences @
             [CHR 0x27] @ ''...''),
      HttpPost serper_url (search_query place num_days preferences)]"

definition console_presentation :: "string \<Rightarrow> int \<Rightarrow> string \<Rightarrow> event list" where
  "console_presentation place num_days itinerary =
     [Print (''\<newline>'' @ replicate 50 (CHR ''='')),
      Print (''Here is your '' @ str_int num_days @ ''-day itinerary for '' @ place @ '':''),
      Print (replicate 50 (CHR ''='')),
      Print itinerary]"

definition app_spinner :: "string \<Rightarrow> int \<Rightarrow> event" where
  "app_spinner place num_days =
     StSpinner (''Planning a '' @ str_int num_days @ ''-day trip to '' @ place @ ''...'')"

definition app_presentation :: "string \<Rightarrow> int \<Rightarrow> string \<Rightarrow> event list" where
  "app_presentation place num_days itinerary =
     [StMarkdown ''---'',
      StHeader (''Your '' @ str_int num_days @ ''-Day Itinerary for '' @ place @ '':''),
      StMarkdown itinerary]"

text \<open>Sample answers of the network, for the concrete runs below.\<close>

definition sample_results :: search_results where
  "sample_results =
     \<lparr>organic = Some [[''title'' \<mapsto> ''Ooty Lake'', ''link'' \<mapsto> ''https://example.org/lake''],
                      [''snippet'' \<mapsto> ''Toy train'']],
      error = None\<rparr>"

definition sample_post :: search_api where
  "sample_post q = Inr \<lparr>status_code = 200, resp_text = ''{...}'', resp_json = Some sample_results\<rparr>"


definition error_body_post :: search_api where
  "error_body_post q =
     Inr \<lparr>status_code = 200, resp_text = ''{...}'',
          resp_json = Some \<lparr>organic = None, error = Some ''Unauthorized''\<rparr>\<rparr>"

definition empty_post :: search_api where
  "empty_post q =
     Inr \<lparr>status_code = 200, resp_text = ''{...}'',
          resp_json = Some \<lparr>organic = Some [], error = None\<rparr>\<rparr>"

definition sample_llm :: llm_api where
  "sample_llm p = Inr ''Day 1: Ooty Lake''"


section \<open>Facts about the string primitives and the parser\<close>

lemma not_isspace_comma: "\<not> isspace (CHR '','')"
  by (simp add: isspace_def)

lemma isdigit_not_isspace: "isdigit c \<Longrightarrow> \<not> isspace c"
  by (auto simp: isdigit_def isspace_def)

lemma takeWhile_append_stop:
  "(ys = [] \<or> \<not> P (hd ys)) \<Longrightarrow> takeWhile P (xs @ ys) = takeWhile P xs"
proof (induction xs)
  case Nil
  then show ?case by (cases ys) auto
next
  case (Cons x xs)
  then show ?case by simp
qed

lemma dropWhile_append_stop:
  "(ys = [] \<or> \<not> P (hd ys)) \<Longrightarrow> dropWhile P (xs @ ys) = dropWhile P xs @ ys"
proof (induction xs)
  case Nil
  then show ?case by (cases ys) auto
next
  case (Cons x xs)
  then show ?case by simp
qed

lemma split_ws_Nil: "split_ws [] = []"
  by (simp add: split_ws.simps)

lemma split_ws_dropWhile: "split_ws (dropWhile isspace s) = split_ws s"
  by (subst split_ws.simps, subst (2) split_ws.simps) simp

lemma split_ws_spaces:
  assumes "\<forall>c\<in>set ws. isspace c"
  shows "split_ws ws = []"
proof -
  have d: "dropWhile isspace ws = []" using assms by (simp add: dropWhile_eq_Nil_conv)
  show ?thesis by (subst split_ws.simps) (simp only: d list.case)
qed

lemma split_ws_leading: "\<forall>c\<in>set ws. isspace c \<Longrightarrow> split_ws (ws @ s) = split_ws s"
  by (subst split_ws.simps, subst (2) split_ws.simps) (simp add: dropWhile_append2)

text \<open>The shape of a text whose first token is t.\<close>

lemma split_ws_token:
  assumes "t \<noteq> []" "\<forall>c\<in>set t. \<not> isspace c" "rest = [] \<or> isspace (hd rest)"
  shows "split_ws (t @ rest) = t # split_ws rest"
proof -
  obtain c cs where t: "t = c # cs" using assms(1) by (cases t) auto
  have c: "\<not> isspace c" and cs: "\<forall>x\<in>set cs. \<not> isspace x" using assms(2) t by auto
  have tw: "takeWhile (\<lambda>x. \<not> isspace x) (cs @ rest) = cs"
    using takeWhile_append_stop [of rest "\<lambda>x. \<not> isspace x" cs] assms(3) cs by simp
  have dw: "dropWhile (\<lambda>x. \<not> isspace x) (cs @ rest) = rest"
    using dropWhile_append_stop [of rest "\<lambda>x. \<not> isspace x" cs] assms(3) cs by simp
  show ?thesis
    by (subst split_ws.simps) (simp add: t c tw dw)
qed

lemma split_ws_first:
  assumes "split_ws x = t # ts"
  shows "\<exists>ws rest. x = ws @ t @ rest \<and> (\<forall>c\<in>set ws. isspace c) \<and> t \<noteq> [] \<and>
           (\<forall>c\<in>set t. \<not> isspace c) \<and> (rest = [] \<or> isspace (hd rest)) \<and> ts = split_ws rest"
proof -
  obtain c cs where d: "dropWhile isspace x = c # cs"
    using assms by (subst (asm) split_ws.simps) (auto split: list.splits)
  have t: "t = c # takeWhile (\<lambda>x. \<not> isspace x) cs" and ts: "ts = split_ws (dropWhile (\<lambda>x. \<not> isspace x) cs)"
    using assms d by (subst (asm) split_ws.simps, simp)+
  have c: "\<not> isspace c" using hd_dropWhile [of isspace x] by (simp add: d)
  let ?ws = "takeWhile isspace x" and ?rest = "dropWhile (\<lambda>x. \<not> isspace x) cs"
  have "x = ?ws @ dropWhile isspace x" by simp
  also have "dropWhile isspace x = t @ ?rest" using d t by simp
  finally have x: "x = ?ws @ t @ ?rest" .
  have r: "?rest = [] \<or> isspace (hd ?rest)"
    using hd_dropWhile [of "\<lambda>x. \<not> isspace x" cs] by auto
  have tt: "\<forall>c\<in>set t. \<not> isspace c" using t c by (auto dest: set_takeWhileD)
  have w: "\<forall>c\<in>set ?ws. isspace c" by (auto dest: set_takeWhileD)
  show ?thesis using x r tt w t ts by blast
qed

lemma split_ws_trailing: "\<forall>c\<in>set ws. isspace c \<Longrightarrow> split_ws (s @ ws) = split_ws s"
proof (induction s rule: split_ws.induct)
  case (1 s)
  show ?case
  proof (cases "dropWhile isspace s")
    case Nil
    then have "\<forall>c\<in>set s. isspace c" by (simp add: dropWhile_eq_Nil_conv)
    then have sN: "split_ws s = []" by (rule split_ws_spaces)
    have "\<forall>c\<in>set (s @ ws). isspace c" using \<open>\<forall>c\<in>set s. isspace c\<close> "1.prems" by auto
    then have "split_ws (s @ ws) = []" by (rule split_ws_spaces)
    then show ?thesis using sN by simp
  next
    case (Cons c cs)
    then have "dropWhile isspace s \<noteq> []" by simp
    then have ex: "\<exists>x\<in>set s. \<not> isspace x" by (simp add: dropWhile_eq_Nil_conv)
    then obtain x where "x \<in> set s" "\<not> isspace x" by blast
    then have d: "dropWhile isspace (s @ ws) = c # cs @ ws"
      using dropWhile_append1 [of x s isspace ws] Cons by simp
    have stop: "ws = [] \<or> isspace (hd ws)"
      using "1.prems" by (cases ws) auto
    have tw: "takeWhile (\<lambda>x. \<not> isspace x) (cs @ ws) = takeWhile (\<lambda>x. \<not> isspace x) cs"
      using takeWhile_append_stop [of ws "\<lambda>x. \<not> isspace x" cs] stop by simp
    have dw: "dropWhile (\<lambda>x. \<not> isspace x) (cs @ ws) = dropWhile (\<lambda>x. \<not> isspace x) cs @ ws"
      using dropWhile_append_stop [of ws "\<lambda>x. \<not> isspace x" cs] stop by simp
    have ih: "split_ws (dropWhile (\<lambda>x. \<not> isspace x) cs @ ws) = split_ws (dropWhile (\<lambda>x. \<not> isspace x) cs)"
      using "1.IH" [OF Cons "1.prems"] .
    show ?thesis
      by (subst split_ws.simps, subst (2) split_ws.simps) (simp add: d Cons tw dw ih)
  qed
qed

lemma strip_decomp: "\<exists>ws1 ws2. s = ws1 @ strip s @ ws2 \<and> (\<forall>c\<in>set ws1. isspace c) \<and> (\<forall>c\<in>set ws2. isspace c)"
proof -
  let ?y = "dropWhile isspace s"
  have "rev ?y = takeWhile isspace (rev ?y) @ dropWhile isspace (rev ?y)" by simp
  then have "?y = rev (dropWhile isspace (rev ?y)) @ rev (takeWhile isspace (rev ?y))"
    by (metis rev_append rev_rev_ident)
  then have y: "?y = strip s @ rev (takeWhile isspace (rev ?y))" by (simp add: strip_def)
  have "s = takeWhile isspace s @ ?y" by simp
  then have "s = takeWhile isspace s @ strip s @ rev (takeWhile isspace (rev ?y))" using y by simp
  moreover have "\<forall>c\<in>set (takeWhile isspace s). isspace c" by (auto dest: set_takeWhileD)
  moreover have "\<forall>c\<in>set (rev (takeWhile isspace (rev ?y))). isspace c" by (auto dest: set_takeWhileD)
  ultimately show ?thesis by blast
qed

lemma split_ws_strip: "split_ws (strip s) = split_ws s"
proof -
  obtain ws1 ws2 where s: "s = ws1 @ strip s @ ws2" and w1: "\<forall>c\<in>set ws1. isspace c" and w2: "\<forall>c\<in>set ws2. isspace c"
    using strip_decomp by blast
  have "split_ws s = split_ws (ws1 @ strip s @ ws2)" using s by simp
  also have "\<dots> = split_ws (strip s @ ws2)" using w1 by (rule split_ws_leading)
  also have "\<dots> = split_ws (strip s)" using w2 by (rule split_ws_trailing)
  finally show ?thesis by simp
qed

lemma parse_destination_char:
  "parse_destination s =
     (case dropWhile (\<lambda>c. c \<noteq> CHR '','') s of
        [] \<Rightarrow> Inl IndexError
      | _ # rest \<Rightarrow>
          (case split_ws (takeWhile (\<lambda>c. c \<noteq> CHR '','') rest) of
             [] \<Rightarrow> Inl IndexError
           | t # _ \<Rightarrow>
               (case py_int t of
                  Inl e \<Rightarrow> Inl e
                | Inr n \<Rightarrow> Inr (strip (takeWhile (\<lambda>c. c \<noteq> CHR '','') s), n))))"
proof (cases "dropWhile (\<lambda>c. c \<noteq> CHR '','') s")
  case Nil
  have a: "split_sep (CHR '','') s = [takeWhile (\<lambda>c. c \<noteq> CHR '','') s]"
    by (subst split_sep.simps) (simp only: Nil list.case)
  show ?thesis unfolding parse_destination_def a Nil by simp
next
  case (Cons x rest)
  have a: "split_sep (CHR '','') s = takeWhile (\<lambda>c. c \<noteq> CHR '','') s # split_sep (CHR '','') rest"
    by (subst split_sep.simps) (simp only: Cons list.case)
  have "\<exists>more. split_sep (CHR '','') rest = takeWhile (\<lambda>c. c \<noteq> CHR '','') rest # more"
    by (subst split_sep.simps) simp
  then obtain more where b: "split_sep (CHR '','') rest = takeWhile (\<lambda>c. c \<noteq> CHR '','') rest # more"
    by blast
  show ?thesis unfolding parse_destination_def a b Cons
    by (simp add: split_ws_strip split: list.splits sum.splits)
qed

lemma py_int_error: "py_int t = Inl e \<Longrightarrow> e = ValueError"
  by (auto simp: py_int_def split: list.splits if_splits option.splits)

lemma int_digits_all:
  "\<forall>c\<in>set ds. isdigit c \<Longrightarrow> int_digits acc ds = Some (foldl (\<lambda>a c. 10 * a + digit_val c) acc ds)"
  by (induction acc ds rule: int_digits.induct) auto

lemma dropWhile_hd: "xs \<noteq> [] \<Longrightarrow> \<not> P (hd xs) \<Longrightarrow> dropWhile P xs = xs"
  by (cases xs) auto

lemma strip_id:
  assumes "s \<noteq> []" "\<not> isspace (hd s)" "\<not> isspace (last s)"
  shows "strip s = s"
proof -
  have "dropWhile isspace s = s" using assms by (simp add: dropWhile_hd)
  moreover have "dropWhile isspace (rev s) = rev s"
    using assms by (simp add: dropWhile_hd hd_rev)
  ultimately show ?thesis by (simp add: strip_def)
qed

lemma int_isspace_isspace: "int_isspace c \<Longrightarrow> isspace c"
  by (auto simp: int_isspace_def isspace_def)

lemma int_strip_id:
  assumes "s \<noteq> []" "\<not> int_isspace (hd s)" "\<not> int_isspace (last s)"
  shows "int_strip s = s"
proof -
  have "dropWhile int_isspace s = s" using assms by (simp add: dropWhile_hd)
  moreover have "dropWhile int_isspace (rev s) = rev s"
    using assms by (simp add: dropWhile_hd hd_rev)
  ultimately show ?thesis by (simp add: int_strip_def)
qed

lemma py_int_digits:
  assumes "N \<noteq> []" "\<forall>c\<in>set N. isdigit c" "length N \<le> int_max_str_digits"
  shows "py_int N = Inr (int (decimal_value N))"
proof -
  obtain d ds where N: "N = d # ds" using assms(1) by (cases N) auto
  have "\<not> isspace (hd N)" "\<not> isspace (last N)"
    using assms(1,2) by (auto intro!: isdigit_not_isspace)
  then have "\<not> int_isspace (hd N)" "\<not> int_isspace (last N)"
    using int_isspace_isspace by blast+
  then have s: "int_strip N = N" using assms(1) by (simp add: int_strip_id)
  have d: "isdigit d" and ds: "\<forall>c\<in>set ds. isdigit c" using assms(2) N by auto
  have nd: "d \<noteq> CHR ''-''" "d \<noteq> CHR ''+''" using d by (auto simp: isdigit_def)
  have "filter isdigit N = N" using assms(2) by simp
  then have len: "length (filter isdigit (d # ds)) \<le> int_max_str_digits"
    using assms(3) N by simp
  have "int_unsigned (d # ds) = Some (decimal_value N)"
    using d len int_digits_all [OF ds]
    by (simp only: int_unsigned_def decimal_value_def N list.case foldl.simps) simp
  then show ?thesis using s nd N by (simp add: py_int_def)
qed

text \<open>Above the limit \<^verbatim>\<open>int\<close> raises, whatever the digits are.\<close>

lemma py_int_too_long:
  assumes "\<forall>c\<in>set N. isdigit c" "int_max_str_digits < length N"
  shows "py_int N = Inl ValueError"
proof -
  have N0: "N \<noteq> []" using assms(2) by auto
  then obtain d ds where N: "N = d # ds" by (cases N) auto
  have "\<not> isspace (hd N)" "\<not> isspace (last N)"
    using assms(1) N0 by (auto intro!: isdigit_not_isspace)
  then have "\<not> int_isspace (hd N)" "\<not> int_isspace (last N)"
    using int_isspace_isspace by blast+
  then have s: "int_strip N = N" using N0 by (simp add: int_strip_id)
  have d: "isdigit d" using assms(1) N by auto
  have nd: "d \<noteq> CHR ''-''" "d \<noteq> CHR ''+''" using d by (auto simp: isdigit_def)
  have "filter isdigit N = N" using assms(1) by simp
  then have len: "\<not> length (filter isdigit (d # ds)) \<le> int_max_str_digits"
    using assms(2) N by simp
  have "int_unsigned (d # ds) = None"
    using len by (simp only: int_unsigned_def list.case) simp
  then show ?thesis using s nd N by (simp add: py_int_def)
qed

lemma int_digits_chars:
  "int_digits acc ds = Some n \<Longrightarrow> \<forall>c\<in>set ds. isdigit c \<or> c = CHR ''_''"
  by (induction acc ds rule: int_digits.induct) (auto split: if_splits)

lemma int_unsigned_chars:
  "int_unsigned s = Some n \<Longrightarrow> \<forall>c\<in>set s. isdigit c \<or> c = CHR ''_''"
  by (auto simp: int_unsigned_def split: list.splits if_splits dest: int_digits_chars)

lemma py_int_chars:
  assumes "py_int t = Inr n"
  shows "\<forall>c\<in>set (int_strip t). isdigit c \<or> c = CHR ''_'' \<or> c = CHR ''-'' \<or> c = CHR ''+''"
proof (cases "int_strip t")
  case Nil
  then show ?thesis by simp
next
  case (Cons c cs)
  show ?thesis
  proof (cases "c = CHR ''-'' \<or> c = CHR ''+''")
    case True
    then obtain m where "int_unsigned cs = Some m"
      using assms Cons by (auto simp: py_int_def split: option.splits if_splits)
    from int_unsigned_chars [OF this] show ?thesis using Cons True by auto
  next
    case False
    then obtain m where "int_unsigned (c # cs) = Some m"
      using assms Cons by (auto simp: py_int_def split: option.splits)
    from int_unsigned_chars [OF this] show ?thesis using Cons by auto
  qed
qed

lemma py_int_no_comma: "py_int t = Inr n \<Longrightarrow> CHR '','' \<notin> set (int_strip t)"
proof
  assume p: "py_int t = Inr n" and c: "CHR '','' \<in> set (int_strip t)"
  have "isdigit (CHR '','') \<or> CHR '','' = CHR ''_'' \<or> CHR '','' = CHR ''-'' \<or> CHR '','' = CHR ''+''"
    using py_int_chars [OF p] c by blast
  then show False by (simp add: isdigit_def)
qed

lemma first_token_Some:
  assumes "first_token x = Some t"
  shows "\<exists>ws rest. x = ws @ t @ rest \<and> (\<forall>c\<in>set ws. isspace c) \<and> t \<noteq> [] \<and>
           (\<forall>c\<in>set t. \<not> isspace c) \<and> (rest = [] \<or> isspace (hd rest))"
proof -
  obtain ts where "split_ws x = t # ts"
    using assms by (auto simp: first_token_def split: list.splits)
  from split_ws_first [OF this] show ?thesis by blast
qed

lemma first_token_shape:
  assumes "\<forall>c\<in>set ws. isspace c" "t \<noteq> []" "\<forall>c\<in>set t. \<not> isspace c" "rest = [] \<or> isspace (hd rest)"
  shows "first_token (ws @ t @ rest) = Some t"
proof -
  have "split_ws (ws @ t @ rest) = split_ws (t @ rest)" using assms(1) by (rule split_ws_leading)
  also have "\<dots> = t # split_ws rest" using assms(2-4) by (rule split_ws_token)
  finally show ?thesis by (simp add: first_token_def)
qed

lemma token_strip:
  assumes "first_token x = Some t"
  shows "strip t = t"
proof -
  from first_token_Some [OF assms] have "t \<noteq> []" "\<forall>c\<in>set t. \<not> isspace c" by blast+
  then show ?thesis by (intro strip_id) auto
qed

lemma token_int_strip:
  assumes "first_token x = Some t"
  shows "int_strip t = t"
proof -
  from first_token_Some [OF assms] have t: "t \<noteq> []" "\<forall>c\<in>set t. \<not> isspace c" by blast+
  then have "\<not> isspace (hd t)" "\<not> isspace (last t)" by auto
  then have "\<not> int_isspace (hd t)" "\<not> int_isspace (last t)"
    using int_isspace_isspace by blast+
  then show ?thesis using t(1) by (rule int_strip_id [rotated])
qed

lemma first_token_day_field:
  assumes "first_token (after_first_comma s) = Some t" "CHR '','' \<notin> set t"
  shows "first_token (day_field s) = Some t"
proof -
  let ?P = "\<lambda>c. c \<noteq> CHR '',''"
  obtain ws rest where R: "after_first_comma s = ws @ t @ rest" and ws: "\<forall>c\<in>set ws. isspace c"
    and t: "t \<noteq> []" "\<forall>c\<in>set t. \<not> isspace c" and rest: "rest = [] \<or> isspace (hd rest)"
    using first_token_Some [OF assms(1)] by blast
  have wsP: "\<forall>c\<in>set ws. ?P c" using ws not_isspace_comma by auto
  have tP: "\<forall>c\<in>set t. ?P c" using assms(2) by auto
  have "day_field s = ws @ t @ takeWhile ?P rest"
    using wsP tP by (simp add: day_field_def R takeWhile_append2)
  moreover have "takeWhile ?P rest = [] \<or> isspace (hd (takeWhile ?P rest))"
  proof (cases rest)
    case Nil
    then show ?thesis by simp
  next
    case (Cons r rs)
    then have "isspace r" using rest by simp
    then have "r \<noteq> CHR '',''" using not_isspace_comma by auto
    then show ?thesis using Cons \<open>isspace r\<close> by simp
  qed
  ultimately show ?thesis using first_token_shape [OF ws t] by simp
qed

lemma parse_destination_day_field:
  "parse_destination s =
     (if CHR '','' \<in> set s then
        (case first_token (day_field s) of
           None \<Rightarrow> Inl IndexError
         | Some t \<Rightarrow>
             (case py_int t of
                Inl e \<Rightarrow> Inl e
              | Inr n \<Rightarrow> Inr (strip (takeWhile (\<lambda>c. c \<noteq> CHR '','') s), n)))
      else Inl IndexError)"
proof (cases "dropWhile (\<lambda>c. c \<noteq> CHR '','') s")
  case Nil
  then have n: "CHR '','' \<notin> set s" by (auto simp: dropWhile_eq_Nil_conv)
  show ?thesis unfolding parse_destination_char Nil using n by simp
next
  case (Cons x rest)
  then have "dropWhile (\<lambda>c. c \<noteq> CHR '','') s \<noteq> []" by simp
  then have y: "CHR '','' \<in> set s" by (simp add: dropWhile_eq_Nil_conv)
  show ?thesis unfolding parse_destination_char day_field_def after_first_comma_def first_token_def Cons
    using y by (simp split: list.splits)
qed

lemma digit_val_zero: "isdigit c \<Longrightarrow> (digit_val c = 0) = (c = CHR ''0'')"
  by (auto simp: isdigit_def digit_val_def)

lemma foldl_decimal_zero:
  "\<forall>c\<in>set ds. isdigit c \<Longrightarrow>
     (foldl (\<lambda>a c. 10 * a + digit_val c) acc ds = 0) = (acc = 0 \<and> (\<forall>c\<in>set ds. c = CHR ''0''))"
  by (induction ds arbitrary: acc) (auto simp: digit_val_zero)

lemma decimal_value_zero:
  "\<forall>c\<in>set ds. isdigit c \<Longrightarrow> (decimal_value ds = 0) = (\<forall>c\<in>set ds. c = CHR ''0'')"
  by (simp add: decimal_value_def foldl_decimal_zero)

lemma isdigit_not_comma: "isdigit c \<Longrightarrow> c \<noteq> CHR '',''"
  by (auto simp: isdigit_def)

lemma parse_valid_form:
  assumes "CHR '','' \<notin> set X" "N \<noteq> []" "\<forall>c\<in>set N. isdigit c"
    "length N \<le> int_max_str_digits"
  shows "parse_destination (X @ '', '' @ N @ '' days'') = Inr (strip X, int (decimal_value N))"
proof -
  let ?P = "\<lambda>c. c \<noteq> CHR '',''"
  let ?s = "X @ '', '' @ N @ '' days''"
  have XP: "\<forall>c\<in>set X. ?P c" using assms(1) by auto
  have NP: "\<forall>c\<in>set N. ?P c" using assms(3) isdigit_not_comma by blast
  have tw: "takeWhile ?P ?s = X" using XP by (simp add: takeWhile_append2)
  have dw: "after_first_comma ?s = '' '' @ N @ '' days''"
    using XP by (simp add: after_first_comma_def dropWhile_append2)
  have df: "day_field ?s = '' '' @ N @ '' days''"
    using NP dw by (simp add: day_field_def takeWhile_append2)
  have a: "\<forall>c\<in>set '' ''. isspace c" by (simp add: isspace_def)
  have b: "\<forall>c\<in>set N. \<not> isspace c" using assms(3) isdigit_not_isspace by blast
  have c: "'' days'' = [] \<or> isspace (hd '' days'')" by (simp add: isspace_def)
  have ft: "first_token (day_field ?s) = Some N"
    using first_token_shape [OF a assms(2) b c] df by simp
  have comma: "CHR '','' \<in> set ?s" by simp
  show ?thesis
    unfolding parse_destination_day_field
    using comma ft py_int_digits [OF assms(2,3,4)] tw by simp
qed

lemma parse_long_form:
  assumes "CHR '','' \<notin> set X" "N \<noteq> []" "\<forall>c\<in>set N. isdigit c"
    "int_max_str_digits < length N"
  shows "parse_destination (X @ '', '' @ N @ '' days'') = Inl ValueError"
proof -
  let ?P = "\<lambda>c. c \<noteq> CHR '',''"
  let ?s = "X @ '', '' @ N @ '' days''"
  have XP: "\<forall>c\<in>set X. ?P c" using assms(1) by auto
  have NP: "\<forall>c\<in>set N. ?P c" using assms(3) isdigit_not_comma by blast
  have tw: "takeWhile ?P ?s = X" using XP by (simp add: takeWhile_append2)
  have dw: "after_first_comma ?s = '' '' @ N @ '' days''"
    using XP by (simp add: after_first_comma_def dropWhile_append2)
  have df: "day_field ?s = '' '' @ N @ '' days''"
    using NP dw by (simp add: day_field_def takeWhile_append2)
  have a: "\<forall>c\<in>set '' ''. isspace c" by (simp add: isspace_def)
  have b: "\<forall>c\<in>set N. \<not> isspace c" using assms(3) isdigit_not_isspace by blast
  have c: "'' days'' = [] \<or> isspace (hd '' days'')" by (simp add: isspace_def)
  have ft: "first_token (day_field ?s) = Some N"
    using first_token_shape [OF a assms(2) b c] df by simp
  have comma: "CHR '','' \<in> set ?s" by simp
  show ?thesis
    unfolding parse_destination_day_field
    using comma ft py_int_too_long [OF assms(3,4)] tw by simp
qed

section \<open>Facts about the summarizer and the prompt\<close>

subsection \<open>The summarizer\<close>

lemma summary_loop_map: "summary_loop xs acc = acc @ map summary_block xs"
  by (induction xs arbitrary: acc)
     (simp_all add: dict_get_def field_or_na_def summary_block_def)

lemma app_summary_loop_map: "app_summary_loop xs acc = acc @ map summary_block xs"
  by (induction xs arbitrary: acc)
     (simp_all add: dict_get_def field_or_na_def summary_block_def)

lemma summarize_blocks:
  "summarize_search_results sr =
     join ''\<newline>'' (map summary_block (take 5 (case organic sr of None \<Rightarrow> [] | Some xs \<Rightarrow> xs)))"
  by (simp add: summarize_search_results_def summary_loop_map)

lemma app_summarize_blocks:
  "app_summarize_search_results sr =
     join ''\<newline>'' (map summary_block (take 5 (case organic sr of None \<Rightarrow> [] | Some xs \<Rightarrow> xs)))"
  by (simp add: app_summarize_search_results_def app_summary_loop_map)

lemma summary_block_nonempty: "summary_block e \<noteq> []"
  by (simp add: summary_block_def)

lemma join_eq_Nil: "(join sep xs = []) = (xs = [] \<or> (sep = [] \<and> (\<forall>x\<in>set xs. x = [])) \<or> xs = [[]])"
  by (induction sep xs rule: join.induct) auto

lemma join_blocks_empty: "(join ''\<newline>'' (map summary_block xs) = []) = (xs = [])"
proof (cases xs)
  case Nil
  then show ?thesis by simp
next
  case (Cons e es)
  then show ?thesis by (cases es) (simp_all add: summary_block_nonempty)
qed

lemma summarize_empty_iff:
  "(summarize_search_results sr = []) = (organic sr = None \<or> organic sr = Some [])"
  by (auto simp: summarize_blocks join_blocks_empty split: option.splits)

lemma app_summarize_eq: "app_summarize_search_results sr = summarize_search_results sr"
  by (simp add: summarize_blocks app_summarize_blocks)

subsection \<open>The prompt\<close>

lemma parse_template_lit:
  "CHR ''{'' \<notin> set l \<Longrightarrow> CHR ''}'' \<notin> set l \<Longrightarrow>
     parse_template (l @ rest) =
       (case parse_template rest of None \<Rightarrow> None | Some ps \<Rightarrow> Some (map Lit l @ ps))"
  by (induction l) (auto split: option.splits)

lemma parse_template_field:
  assumes "name \<noteq> []" "hd name \<noteq> CHR ''{''" "CHR ''}'' \<notin> set name"
  shows "parse_template (CHR ''{'' # name @ CHR ''}'' # rest) =
           (case parse_template rest of None \<Rightarrow> None | Some ps \<Rightarrow> Some (Field name # ps))"
proof -
  obtain d ds where n: "name = d # ds" using assms(1) by (cases name) auto
  have P: "\<forall>x\<in>set name. x \<noteq> CHR ''}''" using assms(3) by auto
  have dw: "dropWhile (\<lambda>x. x \<noteq> CHR ''}'') (name @ CHR ''}'' # rest) = CHR ''}'' # rest"
    using P by (simp add: dropWhile_append2)
  have tw: "takeWhile (\<lambda>x. x \<noteq> CHR ''}'') (name @ CHR ''}'' # rest) = name"
    using P by (simp add: takeWhile_append2)
  have d: "d \<noteq> CHR ''{''" using assms(2) n by simp
  show ?thesis
    using dw tw d unfolding n by (simp split: option.splits)
qed

lemma render_lits:
  "render (map Lit l @ ps) kwargs =
     (case render ps kwargs of Inl e \<Rightarrow> Inl e | Inr s \<Rightarrow> Inr (l @ s))"
  by (induction l) (auto split: sum.splits)

lemma chat_format_pieces:
  assumes b: "CHR ''{'' \<notin> set (l0 @ l1 @ l2 @ l3 @ l4)" "CHR ''}'' \<notin> set (l0 @ l1 @ l2 @ l3 @ l4)"
    and k: "kwargs ''duration'' = Some v1" "kwargs ''destination'' = Some v2"
           "kwargs ''preferences'' = Some v3" "kwargs ''search_summary'' = Some v4"
  shows "chat_format
           (l0 @ ''{duration}'' @ l1 @ ''{destination}'' @ l2 @ ''{preferences}'' @ l3 @
            ''{search_summary}'' @ l4) kwargs =
         Inr (''Human: '' @ l0 @ v1 @ l1 @ v2 @ l2 @ v3 @ l3 @ v4 @ l4)"
proof -
  have f1: "parse_template (''{duration}'' @ rest) =
      (case parse_template rest of None \<Rightarrow> None | Some ps \<Rightarrow> Some (Field ''duration'' # ps))" for rest
    using parse_template_field [of "''duration''" rest] by simp
  have f2: "parse_template (''{destination}'' @ rest) =
      (case parse_template rest of None \<Rightarrow> None | Some ps \<Rightarrow> Some (Field ''destination'' # ps))" for rest
    using parse_template_field [of "''destination''" rest] by simp
  have f3: "parse_template (''{preferences}'' @ rest) =
      (case parse_template rest of None \<Rightarrow> None | Some ps \<Rightarrow> Some (Field ''preferences'' # ps))" for rest
    using parse_template_field [of "''preferences''" rest] by simp
  have f4: "parse_template (''{search_summary}'' @ rest) =
      (case parse_template rest of None \<Rightarrow> None | Some ps \<Rightarrow> Some (Field ''search_summary'' # ps))" for rest
    using parse_template_field [of "''search_summary''" rest] by simp
  have e4: "parse_template l4 = Some (map Lit l4)"
    using parse_template_lit [of l4 "[]"] b by simp
  have p4: "parse_template (''{search_summary}'' @ l4) = Some (Field ''search_summary'' # map Lit l4)"
    by (simp only: f4 e4 option.case)
  have p3: "parse_template (l3 @ ''{search_summary}'' @ l4) =
              Some (map Lit l3 @ Field ''search_summary'' # map Lit l4)"
    using parse_template_lit [of l3 "''{search_summary}'' @ l4"] b by (simp only: p4) simp
  have p3': "parse_template (''{preferences}'' @ l3 @ ''{search_summary}'' @ l4) =
              Some (Field ''preferences'' # map Lit l3 @ Field ''search_summary'' # map Lit l4)"
    by (simp only: f3 p3 option.case)
  have p2: "parse_template (l2 @ ''{preferences}'' @ l3 @ ''{search_summary}'' @ l4) =
              Some (map Lit l2 @ Field ''preferences'' # map Lit l3 @ Field ''search_summary'' # map Lit l4)"
    using parse_template_lit [of l2 "''{preferences}'' @ l3 @ ''{search_summary}'' @ l4"] b
    by (simp only: p3') simp
  have p2': "parse_template (''{destination}'' @ l2 @ ''{preferences}'' @ l3 @ ''{search_summary}'' @ l4) =
              Some (Field ''destination'' # map Lit l2 @ Field ''preferences'' # map Lit l3 @
                    Field ''search_summary'' # map Lit l4)"
    by (simp only: f2 p2 option.case)
  have p1: "parse_template (l1 @ ''{destination}'' @ l2 @ ''{preferences}'' @ l3 @ ''{search_summary}'' @ l4) =
              Some (map Lit l1 @ Field ''destination'' # map Lit l2 @ Field ''preferences'' # map Lit l3 @
                    Field ''search_summary'' # map Lit l4)"
    using parse_template_lit
      [of l1 "''{destination}'' @ l2 @ ''{preferences}'' @ l3 @ ''{search_summary}'' @ l4"] b
    by (simp only: p2') simp
  have p1': "parse_template (''{duration}'' @ l1 @ ''{destination}'' @ l2 @ ''{preferences}'' @ l3 @
                             ''{search_summary}'' @ l4) =
              Some (Field ''duration'' # map Lit l1 @ Field ''destination'' # map Lit l2 @
                    Field ''preferences'' # map Lit l3 @ Field ''search_summary'' # map Lit l4)"
    by (simp only: f1 p1 option.case)
  have p0: "parse_template (l0 @ ''{duration}'' @ l1 @ ''{destination}'' @ l2 @ ''{preferences}'' @ l3 @
                            ''{search_summary}'' @ l4) =
              Some (map Lit l0 @ Field ''duration'' # map Lit l1 @ Field ''destination'' # map Lit l2 @
                    Field ''preferences'' # map Lit l3 @ Field ''search_summary'' # map Lit l4)"
    using parse_template_lit
      [of l0 "''{duration}'' @ l1 @ ''{destination}'' @ l2 @ ''{preferences}'' @ l3 @
              ''{search_summary}'' @ l4"] b
    by (simp only: p1') simp
  have r4: "render (map Lit l4) kwargs = Inr l4"
    using render_lits [of l4 "[]" kwargs] by simp
  have r: "render (map Lit l0 @ Field ''duration'' # map Lit l1 @ Field ''destination'' # map Lit l2 @
                    Field ''preferences'' # map Lit l3 @ Field ''search_summary'' # map Lit l4) kwargs =
           Inr (l0 @ v1 @ l1 @ v2 @ l2 @ v3 @ l3 @ v4 @ l4)"
    by (simp only: render_lits render.simps k r4 option.case sum.case)
  show ?thesis
    unfolding chat_format_def by (simp only: p0 r option.case sum.case)
qed

lemma prompt_template_pieces:
  "prompt_template =
     ''You are an expert travel agent. Create a detailed day-by-day travel itinerary for a '' @ ''{duration}'' @ ''-day trip to '' @ ''{destination}'' @ ''. The user has these preferences: '' @ ''{preferences}'' @ ''\<newline>\<newline>Here is some information I found from my research:\<newline>'' @
     ''{search_summary}'' @ ''\<newline>\<newline>Please use this information to create the itinerary. For each day, suggest 2-3 activities, a food recommendation, and some practical travel tips. Keep the tone friendly and helpful. Do not mention that you used a search engine.''"
  by (simp add: prompt_template_def)

lemma app_prompt_template_eq: "app_prompt_template = prompt_template"
  by (simp add: app_prompt_template_def prompt_template_def)

lemma formatted_prompt_closed:
  "formatted_prompt destination duration preferences search_summary =
     (case py_str_int duration of
        Inl e \<Rightarrow> Inl e
      | Inr d \<Rightarrow>
          Inr (''Human: '' @ ''You are an expert travel agent. Create a detailed day-by-day travel itinerary for a '' @ d @ ''-day trip to '' @ destination @ ''. The user has these preferences: '' @ preferences @ ''\<newline>\<newline>Here is some information I found from my research:\<newline>'' @
               search_summary @ ''\<newline>\<newline>Please use this information to create the itinerary. For each day, suggest 2-3 activities, a food recommendation, and some practical travel tips. Keep the tone friendly and helpful. Do not mention that you used a search engine.''))"
proof (cases "py_str_int duration")
  case (Inl e)
  then show ?thesis by (simp add: formatted_prompt_def)
next
  case (Inr d)
  show ?thesis
    unfolding formatted_prompt_def prompt_template_pieces Inr sum.case
    by (rule chat_format_pieces) simp_all
qed

lemma app_formatted_prompt_eq:
  "app_formatted_prompt destination duration preferences search_summary =
   formatted_prompt destination duration preferences search_summary"
  unfolding app_formatted_prompt_def formatted_prompt_def app_prompt_template_eq by (rule refl)

lemma app_build_itinerary_eq:
  "app_build_itinerary llm destination duration preferences search_summary =
   build_itinerary llm destination duration preferences search_summary"
  by (simp add: app_build_itinerary_def build_itinerary_def app_formatted_prompt_eq)

subsection \<open>A parsed day count can be converted back to text\<close>

lemma digit_val_le: "isdigit c \<Longrightarrow> digit_val c \<le> 9"
  by (auto simp: isdigit_def digit_val_def)

lemma int_digits_bound:
  "int_digits acc ds = Some m \<Longrightarrow> m < (acc + 1) * 10 ^ length (filter isdigit ds)"
proof (induction acc ds arbitrary: m rule: int_digits.induct)
  case (1 acc)
  then show ?case by simp
next
  case (2 acc c)
  then have c: "isdigit c" and m: "m = 10 * acc + digit_val c" by (auto split: if_splits)
  show ?case using c m digit_val_le [OF c] by simp
next
  case (3 acc c d ds)
  show ?case
  proof (cases "isdigit c")
    case True
    then have r: "int_digits (10 * acc + digit_val c) (d # ds) = Some m" using 3(3) by simp
    define L where "L = length (filter isdigit (d # ds))"
    from 3(1) [OF True r]
    have "m < (10 * acc + digit_val c + 1) * 10 ^ L" unfolding L_def .
    also have "\<dots> \<le> ((acc + 1) * 10) * 10 ^ L"
      using digit_val_le [OF True] by (intro mult_le_mono1) simp
    finally have m: "m < (acc + 1) * 10 ^ Suc L" by (simp add: algebra_simps)
    have "length (filter isdigit (c # d # ds)) = Suc L" using True by (simp add: L_def)
    then show ?thesis using m by (simp only:)
  next
    case False
    then have u: "c = CHR ''_'' \<and> isdigit d" and r: "int_digits (10 * acc + digit_val d) ds = Some m"
      using 3(3) by (auto split: if_splits)
    define L where "L = length (filter isdigit ds)"
    from 3(2) [OF False u r]
    have "m < (10 * acc + digit_val d + 1) * 10 ^ L" unfolding L_def .
    also have "\<dots> \<le> ((acc + 1) * 10) * 10 ^ L"
      using digit_val_le [of d] u by (intro mult_le_mono1) simp
    finally have m: "m < (acc + 1) * 10 ^ Suc L" by (simp add: algebra_simps)
    have "length (filter isdigit (c # d # ds)) = Suc L" using False u by (simp add: L_def)
    then show ?thesis using m by (simp only:)
  qed
qed

lemma int_unsigned_bound:
  assumes "int_unsigned s = Some m"
  shows "m < 10 ^ length (filter isdigit s) \<and> 0 < length (filter isdigit s) \<and>
         length (filter isdigit s) \<le> int_max_str_digits"
proof -
  obtain d ds where s: "s = d # ds" using assms by (cases s) (auto simp: int_unsigned_def)
  have d: "isdigit d" and l: "length (filter isdigit s) \<le> int_max_str_digits"
    and r: "int_digits (digit_val d) ds = Some m"
    using assms s by (auto simp: int_unsigned_def split: if_splits)
  define L where "L = length (filter isdigit ds)"
  have "m < (digit_val d + 1) * 10 ^ L" unfolding L_def using r by (rule int_digits_bound)
  also have "\<dots> \<le> 10 * 10 ^ L"
    using digit_val_le [OF d] by (intro mult_le_mono1) simp
  finally have m: "m < 10 ^ Suc L" by simp
  have "length (filter isdigit s) = Suc L" using d s by (simp add: L_def)
  then show ?thesis using m l by (simp only:) simp
qed

lemma str_nat_length: "n < 10 ^ k \<Longrightarrow> 0 < k \<Longrightarrow> length (str_nat n) \<le> k"
proof (induction n arbitrary: k rule: str_nat.induct)
  case (1 n)
  show ?case
  proof (cases "n < 10")
    case True
    then show ?thesis using 1(3) by (subst str_nat.simps) simp
  next
    case False
    obtain j where k: "k = Suc j" using 1(3) by (cases k) auto
    have j: "0 < j" using False 1(2) k by (cases j) auto
    have "n div 10 < 10 ^ j" using 1(2) k by (simp add: less_mult_imp_div_less)
    then have "length (str_nat (n div 10)) \<le> j" using 1(1) [OF False] j by simp
    then show ?thesis using False k by (subst str_nat.simps) simp
  qed
qed

lemma py_int_printable:
  assumes "py_int t = Inr n"
  shows "py_str_int n = Inr (str_int n)"
proof -
  obtain s m where u: "int_unsigned s = Some m" and n: "n = int m \<or> n = - int m"
    using assms by (auto simp: py_int_def split: list.splits if_splits option.splits)
  from int_unsigned_bound [OF u]
  have "length (str_nat m) \<le> length (filter isdigit s)" "length (filter isdigit s) \<le> int_max_str_digits"
    by (auto intro: str_nat_length)
  then have "length (str_nat m) \<le> int_max_str_digits" by simp
  moreover have "nat \<bar>n\<bar> = m" using n by auto
  ultimately show ?thesis by (simp add: py_str_int_def)
qed

lemma parsed_days_printable:
  "parse_destination s = Inr (place, n) \<Longrightarrow> py_str_int n = Inr (str_int n)"
  unfolding parse_destination_day_field
  by (auto split: if_splits option.splits sum.splits dest: py_int_printable)



subsection \<open>The text of the prompt\<close>

lemma formatted_prompt_text:
  "py_str_int duration = Inr (str_int duration) \<Longrightarrow>
   formatted_prompt destination duration preferences search_summary =
     Inr (prompt_text destination duration preferences search_summary)"
  by (simp add: formatted_prompt_closed prompt_text_def)


lemma py_str_int_cases: "py_str_int i = Inl ValueError \<or> py_str_int i = Inr (str_int i)"
  by (simp add: py_str_int_def)

lemma build_itinerary_eq:
  "py_str_int duration = Inr (str_int duration) \<Longrightarrow>
   build_itinerary llm destination duration preferences search_summary =
     ([LlmInvoke (prompt_text destination duration preferences search_summary)],
      llm (prompt_text destination duration preferences search_summary))"
  by (simp add: build_itinerary_def formatted_prompt_text)


subsection \<open>Occurrences of a token in a text with separators\<close>











subsection \<open>The limit of the conversion of an integer to text\<close>





subsection \<open>The two front ends, case by case\<close>

lemma parse_error_handled: "parse_destination s = Inl e \<Longrightarrow> handled e"
  unfolding parse_destination_day_field
  by (auto simp: handled_def split: if_splits option.splits sum.splits dest: py_int_error)

lemma serper_search_result:
  "serper_search post q =
     ([HttpPost serper_url q],
      (case post q of
         Inl e \<Rightarrow> Inl e
       | Inr resp \<Rightarrow>
           if status_code resp \<noteq> 200 then Inr \<lparr>organic = None, error = Some (resp_text resp)\<rparr>
           else (case resp_json resp of None \<Rightarrow> Inl ValueError | Some body \<Rightarrow> Inr body)))"
  by (simp add: serper_search_def)


lemma main_eq:
  "main post llm d prefs =
     (case parse_destination d of
        Inl e \<Rightarrow> (console_intro @ [Print invalid_format_message], None)
      | Inr (place, n) \<Rightarrow>
          (case snd (serper_search post (search_query place n prefs)) of
             Inl e \<Rightarrow>
               (console_intro @ console_prelude place n prefs @
                  (if handled e then [Print invalid_format_message] else []),
                if handled e then None else Some e)
           | Inr sr \<Rightarrow>
               (case error sr of
                  Some err \<Rightarrow>
                    (console_intro @ console_prelude place n prefs @
                       [Print (''Error during search: '' @ err)], None)
                | None \<Rightarrow>
                    if summarize_search_results sr = [] then
                      (console_intro @ console_prelude place n prefs @
                         [Print no_information_message], None)
                    else
                      (case llm (prompt_text place n prefs (summarize_search_results sr)) of
                         Inl e \<Rightarrow>
                           (console_intro @ console_prelude place n prefs @
                              [Print ''Generating your custom itinerary...'',
                               LlmInvoke (prompt_text place n prefs (summarize_search_results sr))] @
                              (if handled e then [Print invalid_format_message] else []),
                            if handled e then None else Some e)
                       | Inr itinerary \<Rightarrow>
                           (console_intro @ console_prelude place n prefs @
                              [Print ''Generating your custom itinerary...'',
                               LlmInvoke (prompt_text place n prefs (summarize_search_results sr))] @
                              console_presentation place n itinerary,
                            None)))))"
proof (cases "parse_destination d")
  case (Inl e)
  then have "handled e" by (rule parse_error_handled)
  then show ?thesis using Inl by (simp add: main_def main_try_def console_intro_def)
next
  case (Inr pr)
  obtain place n where pr: "pr = (place, n)" by (cases pr)
  have ps: "py_str_int n = Inr (str_int n)"
    using Inr pr by (auto intro: parsed_days_printable)
  let ?q = "search_query place n prefs"
  have q: "''best things to do in '' @ place @ '' for '' @ str_int n @ '' days '' @ prefs @
           '' travel guide'' = ?q"
    by (simp add: search_query_def)
  obtain r where r: "serper_search post ?q = ([HttpPost serper_url ?q], r)"
    by (simp add: serper_search_def)
  then have sr: "snd (serper_search post ?q) = r" by simp
  have m: "main_try post llm d prefs =
     (let planning = [Print (''\<newline>Planning a '' @ str_int n @ ''-day trip to '' @ place @ ''...'')];
          searching = [Print (''Searching the web for '' @ [CHR 0x27] @ ?q @ [CHR 0x27] @ ''...'')]
      in
      (case r of
         Inl e \<Rightarrow> (planning @ searching @ [HttpPost serper_url ?q], Some e)
       | Inr search_results \<Rightarrow>
           (case error search_results of
              Some err \<Rightarrow>
                (planning @ searching @ [HttpPost serper_url ?q] @
                   [Print (''Error during search: '' @ err)], None)
            | None \<Rightarrow>
                if summarize_search_results search_results = [] then
                  (planning @ searching @ [HttpPost serper_url ?q] @ [Print no_information_message],
                   None)
                else
                  (case llm (prompt_text place n prefs (summarize_search_results search_results)) of
                     Inl e \<Rightarrow>
                       (planning @ searching @ [HttpPost serper_url ?q] @
                          [Print ''Generating your custom itinerary...'',
                           LlmInvoke (prompt_text place n prefs
                                        (summarize_search_results search_results))],
                        Some e)
                   | Inr itinerary \<Rightarrow>
                       (planning @ searching @ [HttpPost serper_url ?q] @
                          [Print ''Generating your custom itinerary...'',
                           LlmInvoke (prompt_text place n prefs
                                        (summarize_search_results search_results))] @
                          [Print (''\<newline>'' @ replicate 50 (CHR ''='')),
                           Print (''Here is your '' @ str_int n @ ''-day itinerary for '' @
                                  place @ '':''),
                           Print (replicate 50 (CHR ''='')),
                           Print itinerary],
                        None)))))"
    unfolding main_try_def Inr pr
    by (simp only: sum.case prod.case ps Let_def q r build_itinerary_eq [OF ps])
       (simp split: sum.splits option.splits)
  show ?thesis
  proof (cases r)
    case (Inl e)
    show ?thesis using Inr pr sr Inl
      by (simp add: main_def m console_intro_def console_prelude_def)
  next
    case res: (Inr results)
    show ?thesis
    proof (cases "error results")
      case (Some err)
      show ?thesis using Inr pr sr res Some
        by (simp add: main_def m console_intro_def console_prelude_def)
    next
      case None
      show ?thesis
      proof (cases "summarize_search_results results = []")
        case True
        show ?thesis using Inr pr sr res None True
          by (simp add: main_def m console_intro_def console_prelude_def)
      next
        case False
        show ?thesis
        proof (cases "llm (prompt_text place n prefs (summarize_search_results results))")
          case (Inl e)
          show ?thesis using Inr pr sr res None False Inl
            by (simp add: main_def m console_intro_def console_prelude_def)
        next
          case it: (Inr itinerary)
          show ?thesis using Inr pr sr res None False it
            by (simp add: main_def m console_intro_def console_prelude_def
                console_presentation_def)
        qed
      qed
    qed
  qed
qed

lemma app_serper_search_eq:
  "app_serper_search cache post q =
     (case cache q of
        Some stored \<Rightarrow> (([], Inr stored), cache)
      | None \<Rightarrow>
          (serper_search post q,
           (case snd (serper_search post q) of Inl e \<Rightarrow> cache | Inr sr \<Rightarrow> cache(q \<mapsto> sr))))"
  by (simp add: app_serper_search_def serper_search_def serper_url_def
      split: option.splits sum.splits)

lemma app_try_eq:
  "app_try cache post llm d prefs =
     (case parse_destination d of
        Inl e \<Rightarrow> (([], Some e), cache)
      | Inr (place, n) \<Rightarrow>
          (case app_serper_search cache post (search_query place n prefs) of
             ((ev1, Inl e), cache') \<Rightarrow> ((app_spinner place n # ev1, Some e), cache')
           | ((ev1, Inr sr), cache') \<Rightarrow>
               (case error sr of
                  Some err \<Rightarrow>
                    ((app_spinner place n # ev1 @ [StError (''Error during search: '' @ err)],
                      Some StopException), cache')
                | None \<Rightarrow>
                    if summarize_search_results sr = [] then
                      ((app_spinner place n # ev1 @ [StWarning no_information_message],
                        Some StopException), cache')
                    else
                      (case llm (prompt_text place n prefs (summarize_search_results sr)) of
                         Inl e \<Rightarrow>
                           ((app_spinner place n # ev1 @
                               [LlmInvoke (prompt_text place n prefs (summarize_search_results sr))],
                             Some e), cache')
                       | Inr itinerary \<Rightarrow>
                           ((app_spinner place n # ev1 @
                               [LlmInvoke (prompt_text place n prefs (summarize_search_results sr))] @
                               app_presentation place n itinerary,
                             None), cache')))))"
proof (cases "parse_destination d")
  case (Inl e)
  then show ?thesis by (simp add: app_try_def)
next
  case (Inr pr)
  obtain place n where pr: "pr = (place, n)" by (cases pr)
  have ps: "py_str_int n = Inr (str_int n)"
    using Inr pr by (auto intro: parsed_days_printable)
  have q: "''best things to do in '' @ place @ '' for '' @ str_int n @ '' days '' @ prefs @
           '' travel guide'' = search_query place n prefs"
    by (simp add: search_query_def)
  show ?thesis
    unfolding app_try_def Inr pr
    by (simp only: sum.case prod.case Let_def q ps)
       (simp add: app_spinner_def app_presentation_def app_summarize_eq app_build_itinerary_eq
          build_itinerary_eq [OF ps] no_information_message_def
          split: prod.splits sum.splits option.splits)
qed

lemma app_handler_eq:
  "app_handler cache post llm submit d prefs =
     (if submit \<and> d \<noteq> [] then
        (case parse_destination d of
           Inl e \<Rightarrow> (([StError invalid_format_message], None), cache)
         | Inr (place, n) \<Rightarrow>
             (case app_serper_search cache post (search_query place n prefs) of
                ((ev1, Inl e), cache') \<Rightarrow>
                  ((app_spinner place n # ev1 @
                      (if handled e then [StError invalid_format_message] else []),
                    if handled e then None else Some e), cache')
              | ((ev1, Inr sr), cache') \<Rightarrow>
                  (case error sr of
                     Some err \<Rightarrow>
                       ((app_spinner place n # ev1 @ [StError (''Error during search: '' @ err)],
                         Some StopException), cache')
                   | None \<Rightarrow>
                       if summarize_search_results sr = [] then
                         ((app_spinner place n # ev1 @ [StWarning no_information_message],
                           Some StopException), cache')
                       else
                         (case llm (prompt_text place n prefs (summarize_search_results sr)) of
                            Inl e \<Rightarrow>
                              ((app_spinner place n # ev1 @
                                  [LlmInvoke (prompt_text place n prefs (summarize_search_results sr))] @
                                  (if handled e then [StError invalid_format_message] else []),
                                if handled e then None else Some e), cache')
                          | Inr itinerary \<Rightarrow>
                              ((app_spinner place n # ev1 @
                                  [LlmInvoke (prompt_text place n prefs (summarize_search_results sr))] @
                                  app_presentation place n itinerary,
                                None), cache')))))
      else (([], None), cache))"
proof (cases "submit \<and> d \<noteq> []")
  case False
  then show ?thesis by (auto simp: app_handler_def)
next
  case go: True
  have m: "''Invalid input format. Please follow the example: '' @ [CHR 0x27] @ ''Chennai, 3 days'' @
           [CHR 0x27] @ ''.'' = invalid_format_message"
    by (simp add: invalid_format_message_def)
  show ?thesis
  proof (cases "parse_destination d")
    case (Inl e)
    then have "handled e" by (rule parse_error_handled)
    then show ?thesis using go Inl
      by (simp add: app_handler_def app_try_eq invalid_format_message_def)
  next
    case (Inr pr)
    obtain place n where pr: "pr = (place, n)" by (cases pr)
    show ?thesis
      unfolding app_handler_def app_try_eq Inr pr
      using go
      by (simp only: sum.case prod.case m if_True)
         (simp add: handled_def split: prod.splits sum.splits option.splits)
  qed
qed

subsection \<open>Sample runs\<close>

lemma parse_nonempty: "parse_destination d = Inr r \<Longrightarrow> d \<noteq> []"
  by (auto simp: parse_destination_day_field)

lemma parse_sample: "parse_destination ''Ooty, 4 days'' = Inr (''Ooty'', 4)"
  by (simp add: parse_destination_def split_sep.simps split_ws.simps py_int_def int_unsigned_def
      int_strip_def int_isspace_def int_max_str_digits_def strip_def isspace_def isdigit_def
      digit_val_def)

lemma sample_query:
  "search_query ''Ooty'' 4 ''solo'' = ''best things to do in Ooty for 4 days solo travel guide''"
  by (simp add: search_query_def str_int_def str_nat.simps digit_char_def)

lemma llm_calls_append: "llm_calls (xs @ ys) = llm_calls xs @ llm_calls ys"
  by (induction xs rule: llm_calls.induct) simp_all

lemma search_calls_append: "search_calls (xs @ ys) = search_calls xs @ search_calls ys"
  by (induction xs rule: search_calls.induct) simp_all

lemma llm_calls_console_intro: "llm_calls console_intro = []"
  by (simp add: console_intro_def)

lemma llm_calls_console_prelude: "llm_calls (console_prelude place n prefs) = []"
  by (simp add: console_prelude_def)

lemma app_handler_miss:
  assumes p: "parse_destination d = Inr (place, n)"
    and c: "cache (search_query place n prefs) = None"
    and s: "snd (serper_search post (search_query place n prefs)) = Inr sr"
  shows "fst (app_handler cache post llm True d prefs) =
     (case error sr of
        Some err \<Rightarrow>
          ([app_spinner place n, HttpPost serper_url (search_query place n prefs),
            StError (''Error during search: '' @ err)], Some StopException)
      | None \<Rightarrow>
          if summarize_search_results sr = [] then
            ([app_spinner place n, HttpPost serper_url (search_query place n prefs),
              StWarning no_information_message], Some StopException)
          else
            (case llm (prompt_text place n prefs (summarize_search_results sr)) of
               Inl e \<Rightarrow>
                 ([app_spinner place n, HttpPost serper_url (search_query place n prefs),
                   LlmInvoke (prompt_text place n prefs (summarize_search_results sr))] @
                  (if handled e then [StError invalid_format_message] else []),
                  if handled e then None else Some e)
             | Inr itinerary \<Rightarrow>
                 ([app_spinner place n, HttpPost serper_url (search_query place n prefs),
                   LlmInvoke (prompt_text place n prefs (summarize_search_results sr))] @
                  app_presentation place n itinerary, None)))"
proof -
  have d: "d \<noteq> []" using p by (rule parse_nonempty)
  have a: "app_serper_search cache post (search_query place n prefs) =
             (([HttpPost serper_url (search_query place n prefs)], Inr sr),
              cache(search_query place n prefs \<mapsto> sr))"
    using c s by (simp add: app_serper_search_eq serper_search_result)
  show ?thesis
    unfolding app_handler_eq using d p
    by (simp add: a split: option.splits sum.splits)
qed

section \<open>The parser on well-formed and ill-formed inputs\<close>

text \<open>
  Claim C1, as the code has it. For every input \<open>X, N days\<close> where \<open>X\<close> has no comma and
  \<open>N\<close> is a non-empty string of at most 4300 decimal digits, the parser yields the place
  \<open>X\<close> with the surrounding whitespace removed and the day count \<open>N\<close>. The day count is at
  least 1 exactly when \<open>N\<close> has a digit other than \<open>0\<close>: \<open>X, 0 days\<close> is accepted with a
  day count of 0. With more than 4300 digits \<^verbatim>\<open>int\<close> raises \<^verbatim>\<open>ValueError\<close> and the input
  is rejected.
\<close>

theorem parse_valid_input:
  assumes "CHR '','' \<notin> set X" "N \<noteq> []" "\<forall>c\<in>set N. isdigit c"
  shows "(length N \<le> 4300 \<longrightarrow>
            parse_destination (X @ '', '' @ N @ '' days'') = Inr (strip X, int (decimal_value N)) \<and>
            (1 \<le> int (decimal_value N)) = (\<exists>c\<in>set N. c \<noteq> CHR ''0'')) \<and>
         (4300 < length N \<longrightarrow>
            parse_destination (X @ '', '' @ N @ '' days'') = Inl ValueError)"
proof (intro conjI impI)
  assume len: "length N \<le> 4300"
  have "(decimal_value N = 0) = (\<forall>c\<in>set N. c = CHR ''0'')"
    using assms(3) by (rule decimal_value_zero)
  then show "(1 \<le> int (decimal_value N)) = (\<exists>c\<in>set N. c \<noteq> CHR ''0'')"
    by (cases "decimal_value N = 0") auto
  show "parse_destination (X @ '', '' @ N @ '' days'') = Inr (strip X, int (decimal_value N))"
    using parse_valid_form [OF assms] len by (simp add: int_max_str_digits_def)
next
  assume len: "4300 < length N"
  show "parse_destination (X @ '', '' @ N @ '' days'') = Inl ValueError"
    using parse_long_form [OF assms] len by (simp add: int_max_str_digits_def)
qed

theorem parse_valid_input_witness:
  "parse_destination ''Ooty, 4 days'' = Inr (''Ooty'', 4) \<and>
   parse_destination (''Ooty'' @ '', '' @ replicate 4301 (CHR ''1'') @ '' days'') = Inl ValueError"
proof -
  have h1: "CHR '','' \<notin> set ''Ooty''" by simp
  have h2: "''4'' \<noteq> []" by simp
  have h3: "\<forall>c\<in>set ''4''. isdigit c" by (simp add: isdigit_def)
  have a: "parse_destination ''Ooty, 4 days'' = Inr (''Ooty'', 4)"
    using parse_valid_input [OF h1 h2 h3]
    by (simp add: strip_def isspace_def decimal_value_def digit_val_def)
  have g2: "replicate 4301 (CHR ''1'') \<noteq> []"
    by (simp only: replicate_empty)
  have g3: "\<forall>c\<in>set (replicate 4301 (CHR ''1'')). isdigit c"
  proof
    fix c
    assume "c \<in> set (replicate 4301 (CHR ''1''))"
    then have "c = CHR ''1''" by (simp only: in_set_replicate)
    then show "isdigit c" by (simp add: isdigit_def)
  qed
  have len: "4300 < length (replicate 4301 (CHR ''1''))"
    by (simp only: length_replicate)
  have b: "parse_destination (''Ooty'' @ '', '' @ replicate 4301 (CHR ''1'') @ '' days'') =
           Inl ValueError"
    using parse_valid_input [OF h1 g2 g3] len by blast
  from a b show ?thesis by (rule conjI)
qed

text \<open>The claim as the specification states it promises a day count of at least 1; the
  input \<open>Ooty, 0 days\<close> is of the stated form and yields 0.\<close>

theorem parse_zero_days_counterexample:
  "parse_destination ''Ooty, 0 days'' = Inr (''Ooty'', 0) \<and> \<not> (1 \<le> (0::int))"
  by (simp add: parse_destination_def split_sep.simps split_ws.simps py_int_def int_unsigned_def int_strip_def int_isspace_def
      int_max_str_digits_def
      strip_def isspace_def isdigit_def digit_val_def)

text \<open>
  Claim C9, as the code has it. The word \<open>days\<close> is never required: whenever the first
  whitespace-separated token of the text after the first comma is an integer literal, the
  parser succeeds with that integer, whatever follows (\<open>Paris, 3\<close> and \<open>Paris, 3 weeks\<close>
  are accepted). An input is rejected with \<^verbatim>\<open>ValueError\<close> when the first token of the text
  between the first comma and the next comma (or the end of the input) is not an integer
  literal, as in \<open>Paris, 3days\<close>.
\<close>

theorem parse_first_token:
  "(first_token (after_first_comma s) = Some t \<and> py_int t = Inr n \<longrightarrow>
      parse_destination s = Inr (strip (takeWhile (\<lambda>c. c \<noteq> CHR '','') s), n)) \<and>
   (CHR '','' \<in> set s' \<and> first_token (day_field s') = Some t' \<and> py_int t' = Inl e \<longrightarrow>
      parse_destination s' = Inl ValueError) \<and>
   parse_destination ''Paris, 3'' = Inr (''Paris'', 3) \<and>
   parse_destination ''Paris, 3 weeks'' = Inr (''Paris'', 3) \<and>
   parse_destination ''Paris, 3days'' = Inl ValueError"
proof (intro conjI impI)
  assume a: "first_token (after_first_comma s) = Some t \<and> py_int t = Inr n"
  then have ft: "first_token (after_first_comma s) = Some t" and pi: "py_int t = Inr n" by simp_all
  have "int_strip t = t" using ft by (rule token_int_strip)
  then have nc: "CHR '','' \<notin> set t" using py_int_no_comma [OF pi] by simp
  have df: "first_token (day_field s) = Some t" using ft nc by (rule first_token_day_field)
  have "CHR '','' \<in> set s"
  proof (rule ccontr)
    assume "CHR '','' \<notin> set s"
    then have "dropWhile (\<lambda>c. c \<noteq> CHR '','') s = []" by (auto simp: dropWhile_eq_Nil_conv)
    then have "after_first_comma s = []" unfolding after_first_comma_def by (simp only: drop_Nil)
    then show False using ft by (simp add: first_token_def split_ws_Nil)
  qed
  then show "parse_destination s = Inr (strip (takeWhile (\<lambda>c. c \<noteq> CHR '','') s), n)"
    unfolding parse_destination_day_field using df pi by simp
next
  assume b: "CHR '','' \<in> set s' \<and> first_token (day_field s') = Some t' \<and> py_int t' = Inl e"
  then have "e = ValueError" using py_int_error by blast
  then show "parse_destination s' = Inl ValueError"
    unfolding parse_destination_day_field using b by simp
next
  show "parse_destination ''Paris, 3'' = Inr (''Paris'', 3)"
    by (simp add: parse_destination_def split_sep.simps split_ws.simps py_int_def int_unsigned_def int_strip_def int_isspace_def
      int_max_str_digits_def
        strip_def isspace_def isdigit_def digit_val_def)
next
  show "parse_destination ''Paris, 3 weeks'' = Inr (''Paris'', 3)"
    by (simp add: parse_destination_def split_sep.simps split_ws.simps py_int_def int_unsigned_def int_strip_def int_isspace_def
      int_max_str_digits_def
        strip_def isspace_def isdigit_def digit_val_def)
next
  show "parse_destination ''Paris, 3days'' = Inl ValueError"
    by (simp add: parse_destination_def split_sep.simps split_ws.simps py_int_def int_unsigned_def int_strip_def int_isspace_def
      int_max_str_digits_def
        strip_def isspace_def isdigit_def digit_val_def)
qed

theorem parse_first_token_witness:
  "parse_destination ''Goa, 7 nights'' = Inr (''Goa'', 7) \<and>
   parse_destination ''Goa, 7nights'' = Inl ValueError"
proof -
  have h1: "first_token (after_first_comma ''Goa, 7 nights'') = Some ''7'' \<and> py_int ''7'' = Inr 7"
    by (simp add: first_token_def after_first_comma_def split_ws.simps py_int_def int_unsigned_def int_strip_def int_isspace_def
      int_max_str_digits_def
        strip_def isspace_def isdigit_def digit_val_def)
  have h2: "CHR '','' \<in> set ''Goa, 7nights'' \<and>
            first_token (day_field ''Goa, 7nights'') = Some ''7nights'' \<and>
            py_int ''7nights'' = Inl ValueError"
    by (simp add: first_token_def day_field_def after_first_comma_def split_ws.simps py_int_def
        int_unsigned_def int_strip_def int_isspace_def int_max_str_digits_def strip_def isspace_def isdigit_def digit_val_def)
  from parse_first_token [of "''Goa, 7 nights''" "''7''" 7 "''Goa, 7nights''" "''7nights''" ValueError]
    h1 h2
  show ?thesis by (simp add: strip_def isspace_def)
qed

text \<open>The claim as stated rejects every input in which the integer does not form a
  whitespace-separated token of its own. In \<open>Rome, 2,5 days\<close> the first token after the
  first comma is \<open>2,5\<close>, which is no integer literal, and the parser accepts the input with
  a day count of 2: the text is split at every comma, not at the first one only.\<close>

theorem parse_second_comma_counterexample:
  "first_token (after_first_comma ''Rome, 2,5 days'') = Some ''2,5'' \<and>
   py_int ''2,5'' = Inl ValueError \<and>
   parse_destination ''Rome, 2,5 days'' = Inr (''Rome'', 2)"
  by (simp add: first_token_def after_first_comma_def parse_destination_def split_sep.simps
      split_ws.simps py_int_def int_unsigned_def int_strip_def int_isspace_def
      int_max_str_digits_def strip_def isspace_def isdigit_def digit_val_def)

section \<open>The summary of the search results\<close>

text \<open>
  Claim C3. For a search response whose \<^verbatim>\<open>"organic"\<close> list has \<open>k\<close> entries, the summary is
  made of the blocks of the first \<open>min k 5\<close> entries, in order, joined by a newline: all of
  them when \<open>k < 5\<close>, the first five otherwise. A block is the three lines \<open>Title\<close>,
  \<open>URL\<close>, \<open>Summary\<close> followed by the delimiter line \<open>---\<close>, with \<open>N/A\<close> for each of
  title, link and snippet the entry does not have. Both front ends compute the same summary.
\<close>

theorem summarizer_blocks:
  assumes "organic sr = Some xs"
  shows "summarize_search_results sr = join ''\<newline>'' (map summary_block (take 5 xs)) \<and>
         app_summarize_search_results sr = join ''\<newline>'' (map summary_block (take 5 xs)) \<and>
         length (map summary_block (take 5 xs)) = min (length xs) 5 \<and>
         (length xs < 5 \<longrightarrow> take 5 xs = xs)"
  using assms by (simp add: summarize_blocks app_summarize_blocks)

theorem summarizer_blocks_witness:
  "summarize_search_results sample_results =
     ''Title: Ooty Lake\<newline>URL: https://example.org/lake\<newline>Summary: N/A\<newline>---\<newline>'' @
     ''Title: N/A\<newline>URL: N/A\<newline>Summary: Toy train\<newline>---''"
proof -
  have h: "organic sample_results =
             Some [[''title'' \<mapsto> ''Ooty Lake'', ''link'' \<mapsto> ''https://example.org/lake''],
                   [''snippet'' \<mapsto> ''Toy train'']]"
    by (simp add: sample_results_def)
  from summarizer_blocks [OF h] show ?thesis
    by (simp add: summary_block_def field_or_na_def)
qed

section \<open>The prompt of the itinerary generator\<close>




section \<open>Errors of the search\<close>




section \<open>A response with an error key\<close>

text \<open>
  Claim C10. When the provider answers a search request with status 200 and a JSON body
  that has a top-level \<^verbatim>\<open>"error"\<close> key, the request halts with the search-error message
  built from the value of that key, and no generation request is made; the web front
  end does the same when its cache holds such a result, without any request to the
  provider. A status-200 body without the key leads to the summary stage: the
  no-information message when the summary is empty, one generation request otherwise.
\<close>

theorem error_key_halts:
  assumes "parse_destination d = Inr (place, n)"
  shows "(post (search_query place n prefs) = Inr resp \<and> status_code resp = 200 \<and>
          resp_json resp = Some body \<and> error body = Some err \<longrightarrow>
            main post llm d prefs =
              (console_intro @ console_prelude place n prefs @
                 [Print (''Error during search: '' @ err)], None) \<and>
            llm_calls (fst (main post llm d prefs)) = [] \<and>
            (cache (search_query place n prefs) = None \<longrightarrow>
               fst (app_handler cache post llm True d prefs) =
                 ([app_spinner place n, HttpPost serper_url (search_query place n prefs),
                   StError (''Error during search: '' @ err)], Some StopException))) \<and>
         (cache (search_query place n prefs) = Some stored \<and> error stored = Some err \<longrightarrow>
            app_handler cache post llm True d prefs =
              (([app_spinner place n, StError (''Error during search: '' @ err)],
                Some StopException), cache)) \<and>
         (post (search_query place n prefs) = Inr resp \<and> status_code resp = 200 \<and>
          resp_json resp = Some body \<and> error body = None \<longrightarrow>
            (summarize_search_results body = [] \<longrightarrow>
               main post llm d prefs =
                 (console_intro @ console_prelude place n prefs @ [Print no_information_message],
                  None)) \<and>
            (summarize_search_results body \<noteq> [] \<longrightarrow>
               llm_calls (fst (main post llm d prefs)) =
                 [prompt_text place n prefs (summarize_search_results body)]))"
proof (intro conjI impI)
  assume h: "post (search_query place n prefs) = Inr resp \<and> status_code resp = 200 \<and>
             resp_json resp = Some body \<and> error body = Some err"
  then have s: "snd (serper_search post (search_query place n prefs)) = Inr body"
    by (simp add: serper_search_result)
  show m: "main post llm d prefs =
             (console_intro @ console_prelude place n prefs @
                [Print (''Error during search: '' @ err)], None)"
    using assms h s by (simp add: main_eq)
  show "llm_calls (fst (main post llm d prefs)) = []"
    unfolding m by (simp add: llm_calls_append llm_calls_console_intro llm_calls_console_prelude)
  show "fst (app_handler cache post llm True d prefs) =
          ([app_spinner place n, HttpPost serper_url (search_query place n prefs),
            StError (''Error during search: '' @ err)], Some StopException)"
    if c: "cache (search_query place n prefs) = None"
    using h app_handler_miss [where cache = cache and post = post and prefs = prefs and llm = llm,
        OF assms c s] by simp
next
  assume h: "cache (search_query place n prefs) = Some stored \<and> error stored = Some err"
  have d: "d \<noteq> []" using assms by (rule parse_nonempty)
  show "app_handler cache post llm True d prefs =
          (([app_spinner place n, StError (''Error during search: '' @ err)],
            Some StopException), cache)"
    unfolding app_handler_eq using d assms h by (simp add: app_serper_search_eq)
next
  assume h: "post (search_query place n prefs) = Inr resp \<and> status_code resp = 200 \<and>
             resp_json resp = Some body \<and> error body = None"
  then have s: "snd (serper_search post (search_query place n prefs)) = Inr body"
    by (simp add: serper_search_result)
  show "main post llm d prefs =
          (console_intro @ console_prelude place n prefs @ [Print no_information_message], None)"
    if "summarize_search_results body = []"
    using assms h s that by (simp add: main_eq)
  show "llm_calls (fst (main post llm d prefs)) =
          [prompt_text place n prefs (summarize_search_results body)]"
    if "summarize_search_results body \<noteq> []"
    using assms h s that
    by (simp add: main_eq llm_calls_append llm_calls_console_intro llm_calls_console_prelude
        console_presentation_def handled_def split: sum.splits)
qed

theorem error_key_halts_witness:
  "last (fst (main error_body_post sample_llm ''Ooty, 4 days'' ''solo'')) =
     Print ''Error during search: Unauthorized'' \<and>
   snd (main error_body_post sample_llm ''Ooty, 4 days'' ''solo'') = None \<and>
   llm_calls (fst (main error_body_post sample_llm ''Ooty, 4 days'' ''solo'')) = [] \<and>
   fst (app_handler Map.empty error_body_post sample_llm True ''Ooty, 4 days'' ''solo'') =
     ([StSpinner ''Planning a 4-day trip to Ooty...'',
       HttpPost ''https://google.serper.dev/search''
         ''best things to do in Ooty for 4 days solo travel guide'',
       StError ''Error during search: Unauthorized''], Some StopException)"
proof -
  let ?q = "''best things to do in Ooty for 4 days solo travel guide''"
  let ?body = "\<lparr>organic = None, error = Some ''Unauthorized''\<rparr>"
  let ?resp = "\<lparr>status_code = 200, resp_text = ''{...}'', resp_json = Some ?body\<rparr>"
  have h: "error_body_post (search_query ''Ooty'' 4 ''solo'') = Inr ?resp \<and>
           status_code ?resp = 200 \<and> resp_json ?resp = Some ?body \<and>
           error ?body = Some ''Unauthorized''"
    by (simp add: error_body_post_def)
  have e: "Map.empty (search_query ''Ooty'' 4 ''solo'') = None" by simp
  note t = error_key_halts [where d = "''Ooty, 4 days''" and place = "''Ooty''" and n = 4 and
      prefs = "''solo''" and post = error_body_post and resp = "?resp" and body = "?body" and
      err = "''Unauthorized''" and llm = sample_llm and cache = Map.empty, OF parse_sample]
  from t h have m: "main error_body_post sample_llm ''Ooty, 4 days'' ''solo'' =
      (console_intro @ console_prelude ''Ooty'' 4 ''solo'' @
         [Print (''Error during search: '' @ ''Unauthorized'')], None)"
    by blast
  from t h have 3: "llm_calls (fst (main error_body_post sample_llm ''Ooty, 4 days'' ''solo'')) = []"
    by blast
  from t h e have 5: "fst (app_handler Map.empty error_body_post sample_llm True ''Ooty, 4 days'' ''solo'') =
      ([app_spinner ''Ooty'' 4, HttpPost serper_url (search_query ''Ooty'' 4 ''solo''),
        StError (''Error during search: '' @ ''Unauthorized'')], Some StopException)"
    by blast
  have 1: "last (fst (main error_body_post sample_llm ''Ooty, 4 days'' ''solo'')) =
             Print ''Error during search: Unauthorized''"
    unfolding m by simp
  have 2: "snd (main error_body_post sample_llm ''Ooty, 4 days'' ''solo'') = None"
    unfolding m by simp
  have 4: "fst (app_handler Map.empty error_body_post sample_llm True ''Ooty, 4 days'' ''solo'') =
     ([StSpinner ''Planning a 4-day trip to Ooty...'',
       HttpPost ''https://google.serper.dev/search'' ?q,
       StError ''Error during search: Unauthorized''], Some StopException)"
    unfolding 5
    by (simp add: app_spinner_def serper_url_def search_query_def str_int_def str_nat.simps
        digit_char_def)
  from 1 2 3 4 show ?thesis by simp
qed

section \<open>A response without results\<close>

text \<open>
  Claim C4 (amended). The summary of a search response is the empty string exactly when
  its \<^verbatim>\<open>"organic"\<close> list is empty or absent, in both front ends. The request then halts
  without a generation request: with the no-information message (printed by the console
  front end, shown as a warning by the web front end, which stops the run) when the
  response has no \<^verbatim>\<open>"error"\<close> key, and with the search-error message when it has one.
\<close>

theorem empty_results_halt:
  "((summarize_search_results sr = []) = (organic sr = None \<or> organic sr = Some [])) \<and>
   app_summarize_search_results sr = summarize_search_results sr \<and>
   (parse_destination d = Inr (place, n) \<and>
    snd (serper_search post (search_query place n prefs)) = Inr sr \<and>
    (organic sr = None \<or> organic sr = Some []) \<longrightarrow>
      main post llm d prefs =
        (console_intro @ console_prelude place n prefs @
           [Print (case error sr of
                     None \<Rightarrow> no_information_message
                   | Some err \<Rightarrow> ''Error during search: '' @ err)], None) \<and>
      llm_calls (fst (main post llm d prefs)) = [] \<and>
      (cache (search_query place n prefs) = None \<longrightarrow>
         fst (app_handler cache post llm True d prefs) =
           ([app_spinner place n, HttpPost serper_url (search_query place n prefs),
             (case error sr of
                None \<Rightarrow> StWarning no_information_message
              | Some err \<Rightarrow> StError (''Error during search: '' @ err))], Some StopException)))"
proof (intro conjI impI)
  show "(summarize_search_results sr = []) = (organic sr = None \<or> organic sr = Some [])"
    by (rule summarize_empty_iff)
  show "app_summarize_search_results sr = summarize_search_results sr"
    by (rule app_summarize_eq)
next
  assume h: "parse_destination d = Inr (place, n) \<and>
             snd (serper_search post (search_query place n prefs)) = Inr sr \<and>
             (organic sr = None \<or> organic sr = Some [])"
  then have e: "summarize_search_results sr = []" by (simp add: summarize_empty_iff)
  show m: "main post llm d prefs =
        (console_intro @ console_prelude place n prefs @
           [Print (case error sr of
                     None \<Rightarrow> no_information_message
                   | Some err \<Rightarrow> ''Error during search: '' @ err)], None)"
    using h e by (simp add: main_eq split: option.splits)
  show "llm_calls (fst (main post llm d prefs)) = []"
    unfolding m by (simp add: llm_calls_append llm_calls_console_intro llm_calls_console_prelude)
  show "fst (app_handler cache post llm True d prefs) =
           ([app_spinner place n, HttpPost serper_url (search_query place n prefs),
             (case error sr of
                None \<Rightarrow> StWarning no_information_message
              | Some err \<Rightarrow> StError (''Error during search: '' @ err))], Some StopException)"
    if c: "cache (search_query place n prefs) = None"
    using h e app_handler_miss [of d place n cache prefs post sr llm] c
    by (simp split: option.splits)
qed

theorem empty_results_halt_witness:
  "summarize_search_results \<lparr>organic = Some [], error = None\<rparr> = [] \<and>
   last (fst (main empty_post sample_llm ''Ooty, 4 days'' ''solo'')) =
     Print ''Could not find relevant information. Please try a different query.'' \<and>
   snd (main empty_post sample_llm ''Ooty, 4 days'' ''solo'') = None \<and>
   llm_calls (fst (main empty_post sample_llm ''Ooty, 4 days'' ''solo'')) = [] \<and>
   fst (app_handler Map.empty empty_post sample_llm True ''Ooty, 4 days'' ''solo'') =
     ([StSpinner ''Planning a 4-day trip to Ooty...'',
       HttpPost ''https://google.serper.dev/search''
         ''best things to do in Ooty for 4 days solo travel guide'',
       StWarning ''Could not find relevant information. Please try a different query.''],
      Some StopException)"
proof -
  let ?q = "''best things to do in Ooty for 4 days solo travel guide''"
  let ?sr = "\<lparr>organic = Some [], error = None\<rparr>"
  have h: "parse_destination ''Ooty, 4 days'' = Inr (''Ooty'', 4) \<and>
           snd (serper_search empty_post (search_query ''Ooty'' 4 ''solo'')) = Inr ?sr \<and>
           (organic ?sr = None \<or> organic ?sr = Some [])"
    by (simp add: parse_sample serper_search_result empty_post_def)
  have e: "Map.empty (search_query ''Ooty'' 4 ''solo'') = None" by simp
  note t = empty_results_halt [where sr = "?sr" and d = "''Ooty, 4 days''" and place = "''Ooty''" and
      n = 4 and prefs = "''solo''" and post = empty_post and llm = sample_llm and cache = Map.empty]
  from t have 0: "summarize_search_results ?sr = []" by simp
  from t h have m: "main empty_post sample_llm ''Ooty, 4 days'' ''solo'' =
      (console_intro @ console_prelude ''Ooty'' 4 ''solo'' @ [Print no_information_message], None)"
    by simp
  from t h have 3: "llm_calls (fst (main empty_post sample_llm ''Ooty, 4 days'' ''solo'')) = []"
    by blast
  from t h e have 5: "fst (app_handler Map.empty empty_post sample_llm True ''Ooty, 4 days'' ''solo'') =
      ([app_spinner ''Ooty'' 4, HttpPost serper_url (search_query ''Ooty'' 4 ''solo''),
        StWarning no_information_message], Some StopException)"
    by simp
  have 1: "last (fst (main empty_post sample_llm ''Ooty, 4 days'' ''solo'')) =
             Print ''Could not find relevant information. Please try a different query.''"
    unfolding m by (simp add: no_information_message_def)
  have 2: "snd (main empty_post sample_llm ''Ooty, 4 days'' ''solo'') = None"
    unfolding m by simp
  have 4: "fst (app_handler Map.empty empty_post sample_llm True ''Ooty, 4 days'' ''solo'') =
     ([StSpinner ''Planning a 4-day trip to Ooty...'',
       HttpPost ''https://google.serper.dev/search'' ?q,
       StWarning ''Could not find relevant information. Please try a different query.''],
      Some StopException)"
    unfolding 5
    by (simp add: app_spinner_def serper_url_def search_query_def str_int_def str_nat.simps
        digit_char_def no_information_message_def)
  from 0 1 2 3 4 show ?thesis by simp
qed

theorem error_without_results_counterexample:
  "organic \<lparr>organic = None, error = Some ''Unauthorized''\<rparr> = None \<and>
   summarize_search_results \<lparr>organic = None, error = Some ''Unauthorized''\<rparr> = [] \<and>
   snd (serper_search error_body_post ''best things to do in Ooty for 4 days solo travel guide'') =
     Inr \<lparr>organic = None, error = Some ''Unauthorized''\<rparr> \<and>
   last (fst (main error_body_post sample_llm ''Ooty, 4 days'' ''solo'')) =
     Print ''Error during search: Unauthorized'' \<and>
   last (fst (fst (app_handler Map.empty error_body_post sample_llm True ''Ooty, 4 days''
                     ''solo''))) =
     StError ''Error during search: Unauthorized''"
proof -
  let ?q = "''best things to do in Ooty for 4 days solo travel guide''"
  let ?sr = "\<lparr>organic = None, error = Some ''Unauthorized''\<rparr>"
  have 1: "summarize_search_results ?sr = []" by (simp add: summarize_empty_iff)
  have 2: "snd (serper_search error_body_post ?q) = Inr ?sr"
    by (simp add: serper_search_result error_body_post_def)
  then have s: "snd (serper_search error_body_post (search_query ''Ooty'' 4 ''solo'')) = Inr ?sr"
    by (simp add: sample_query)
  have m: "main error_body_post sample_llm ''Ooty, 4 days'' ''solo'' =
      (console_intro @ console_prelude ''Ooty'' 4 ''solo'' @
         [Print (''Error during search: '' @ ''Unauthorized'')], None)"
    using s by (simp add: main_eq parse_sample)
  have 3: "last (fst (main error_body_post sample_llm ''Ooty, 4 days'' ''solo'')) =
             Print ''Error during search: Unauthorized''"
    unfolding m by simp
  have e: "Map.empty (search_query ''Ooty'' 4 ''solo'') = None" by simp
  have 4: "last (fst (fst (app_handler Map.empty error_body_post sample_llm True ''Ooty, 4 days''
                     ''solo''))) = StError ''Error during search: Unauthorized''"
    unfolding app_handler_miss [where cache = Map.empty and post = error_body_post and
        prefs = "''solo''" and llm = sample_llm, OF parse_sample e s] by simp
  from 1 2 3 4 show ?thesis by simp
qed

end
